theory Spec2Isabelle
  imports Main "HOL-Library.Word"
begin

unbundle bit_operations_syntax

section \<open>keyed.c: machine types and platform constants\<close>

text \<open>
  keyed.c is written for x86-64 Linux: it reads \<open>orig_rax\<close>, \<open>rax\<close>, \<open>rdi\<close>, \<open>rsi\<close> and
  \<open>rdx\<close> of \<open>struct user_regs_struct\<close>. Registers, \<open>size_t\<close>, \<open>unsigned long\<close> and
  \<open>long\<close> are 64-bit words, \<open>int\<close> is a 32-bit word (read with \<open>sint\<close>), a byte is an
  8-bit word.
\<close>

type_synonym u64 = "64 word"
type_synonym i32 = "32 word"
type_synonym u32 = "32 word"
type_synonym byte = "8 word"

text \<open>The syscall numbers of \<^verbatim>\<open>syscall.h\<close> on x86-64.\<close>

definition SYS_read :: u64 where "SYS_read = 0"
definition SYS_open :: u64 where "SYS_open = 2"
definition SYS_close :: u64 where "SYS_close = 3"
definition SYS_getpid :: u64 where "SYS_getpid = 39"
definition SYS_exit :: u64 where "SYS_exit = 60"
definition SYS_exit_group :: u64 where "SYS_exit_group = 231"
definition SYS_getrandom :: u64 where "SYS_getrandom = 318"

section \<open>The keystream primitive of libsodium\<close>

text \<open>
  \<open>crypto_stream_chacha20\<close> is libsodium's, not this repository's. It is the original
  ChaCha20 of Bernstein: sixteen 32-bit words, the four constants of
  \<open>"expand 32-byte k"\<close>, eight key words, a 64-bit block counter (words 12 and 13) that
  starts at 0, and a 64-bit nonce (words 14 and 15); all loads and stores little endian.
  libsodium's header gives \<open>crypto_stream_chacha20_NONCEBYTES\<close> as \<open>8U\<close> and
  \<open>crypto_stream_chacha20_KEYBYTES\<close> as \<open>32U\<close> (the 12-byte nonce belongs to the other
  function \<open>crypto_stream_chacha20_ietf\<close>, which keyed.c does not call).
\<close>

definition crypto_stream_chacha20_NONCEBYTES :: nat where
  "crypto_stream_chacha20_NONCEBYTES = 8"

definition crypto_stream_chacha20_KEYBYTES :: nat where
  "crypto_stream_chacha20_KEYBYTES = 32"

text \<open>A byte of a C buffer; past the end of the list the byte reads 0 (never reached:
  keyed.c passes buffers at least as long as the primitive reads).\<close>

definition byte_at :: "byte list \<Rightarrow> nat \<Rightarrow> byte" where
  "byte_at xs i = (if i < length xs then xs ! i else 0)"

definition LOAD32_LE :: "byte list \<Rightarrow> nat \<Rightarrow> u32" where
  "LOAD32_LE xs i =
     ucast (byte_at xs i) OR push_bit 8 (ucast (byte_at xs (i + 1)))
       OR push_bit 16 (ucast (byte_at xs (i + 2))) OR push_bit 24 (ucast (byte_at xs (i + 3)))"

definition STORE32_LE :: "u32 \<Rightarrow> byte list" where
  "STORE32_LE w = [ucast w, ucast (drop_bit 8 w), ucast (drop_bit 16 w), ucast (drop_bit 24 w)]"

definition ROTL32 :: "u32 \<Rightarrow> nat \<Rightarrow> u32" where
  "ROTL32 x n = push_bit n x OR drop_bit (32 - n) x"

definition QUARTERROUND :: "nat \<Rightarrow> nat \<Rightarrow> nat \<Rightarrow> nat \<Rightarrow> u32 list \<Rightarrow> u32 list" where
  "QUARTERROUND a b c d x0 =
     (let x1 = x0[a := x0 ! a + x0 ! b];
          x2 = x1[d := ROTL32 (x1 ! d XOR x1 ! a) 16];
          x3 = x2[c := x2 ! c + x2 ! d];
          x4 = x3[b := ROTL32 (x3 ! b XOR x3 ! c) 12];
          x5 = x4[a := x4 ! a + x4 ! b];
          x6 = x5[d := ROTL32 (x5 ! d XOR x5 ! a) 8];
          x7 = x6[c := x6 ! c + x6 ! d]
      in x7[b := ROTL32 (x7 ! b XOR x7 ! c) 7])"

definition double_round :: "u32 list \<Rightarrow> u32 list" where
  "double_round x =
     QUARTERROUND 3 4 9 14 (QUARTERROUND 2 7 8 13 (QUARTERROUND 1 6 11 12
       (QUARTERROUND 0 5 10 15 (QUARTERROUND 3 7 11 15 (QUARTERROUND 2 6 10 14
         (QUARTERROUND 1 5 9 13 (QUARTERROUND 0 4 8 12 x)))))))"

definition chacha_keysetup :: "byte list \<Rightarrow> u32 list" where
  "chacha_keysetup k =
     [0x61707865, 0x3320646e, 0x79622d32, 0x6b206574] @ map (\<lambda>i. LOAD32_LE k (4 * i)) [0..<8]"

definition chacha_input :: "byte list \<Rightarrow> byte list \<Rightarrow> u64 \<Rightarrow> u32 list" where
  "chacha_input k n ctr =
     chacha_keysetup k @ [ucast ctr, ucast (drop_bit 32 ctr), LOAD32_LE n 0, LOAD32_LE n 4]"

text \<open>For comparison only: the input block of the IETF variant (RFC 8439), with a 32-bit
  counter in word 12 and a 96-bit nonce in words 13 to 15. keyed.c does not use it.\<close>

definition chacha_input_ietf :: "byte list \<Rightarrow> byte list \<Rightarrow> u32 \<Rightarrow> u32 list" where
  "chacha_input_ietf k n ctr =
     chacha_keysetup k @ [ctr, LOAD32_LE n 0, LOAD32_LE n 4, LOAD32_LE n 8]"

definition chacha20_block :: "byte list \<Rightarrow> byte list \<Rightarrow> u64 \<Rightarrow> byte list" where
  "chacha20_block k n ctr =
     (let j = chacha_input k n ctr
      in concat (map STORE32_LE (map2 (+) ((double_round ^^ 10) j) j)))"

text \<open>Byte \<open>i\<close> of the keystream under key \<open>k\<close> and nonce \<open>n\<close>: byte \<open>i mod 64\<close> of
  block \<open>i div 64\<close>.\<close>

definition keystream_byte :: "byte list \<Rightarrow> byte list \<Rightarrow> nat \<Rightarrow> byte" where
  "keystream_byte k n i = chacha20_block k n (of_nat (i div 64)) ! (i mod 64)"

text \<open>\<open>crypto_stream_chacha20(c, clen, n, k)\<close> stores the first \<open>clen\<close> bytes of the
  keystream in \<open>c\<close>: the block counter starts at 0 on every call.\<close>

definition crypto_stream_chacha20 :: "nat \<Rightarrow> byte list \<Rightarrow> byte list \<Rightarrow> byte list" where
  "crypto_stream_chacha20 clen n k = map (keystream_byte k n) [0..<clen]"


section \<open>The child, the kernel and the tracer's state\<close>

text \<open>The fields of \<open>struct user_regs_struct\<close> that keyed.c reads or writes.\<close>

record user_regs =
  orig_rax :: u64
  rax :: u64
  rdi :: u64
  rsi :: u64
  rdx :: u64

text \<open>
  Every call of keyed.c's trace loop that can fail, in source order: the two
  \<open>PTRACE_SYSCALL\<close>/\<open>waitpid\<close> pairs, \<open>PTRACE_GETREGS\<close> at entry,
  \<open>process_vm_readv\<close> of the path, \<open>PTRACE_SETREGS\<close>, \<open>process_vm_writev\<close>,
  \<open>PTRACE_POKEUSER\<close> of the size, \<open>PTRACE_GETREGS\<close> at exit and
  \<open>PTRACE_POKEUSER\<close> of the fake pid.
\<close>

datatype call_site =
  Resume_entry | Wait_entry | Getregs_entry | Readv_path | Setregs
  | Resume_exit | Wait_exit | Writev_buf | Poke_size | Getregs_exit | Poke_pid

text \<open>
  The ways the tracer process ends: \<open>exit(regs.rdi)\<close> when the child exits, and the
  three kinds of \<open>fatal\<close> (a failed call with \<open>strerror(errno)\<close>,
  \<open>"too many open file descriptors"\<close>, \<open>"out of memory"\<close>).
\<close>

datatype halt =
  Exited i32
  | Trace_error call_site
  | Too_many_fds
  | Out_of_memory

text \<open>
  The kinds of stop that \<open>waitpid\<close> can report after \<open>PTRACE_SYSCALL\<close>. keyed.c passes
  a null status pointer to \<open>waitpid\<close> and sets no option but \<open>PTRACE_O_EXITKILL\<close>, so it
  never learns the kind: it takes the first stop of every pass through the loop for a
  syscall-entry stop and the second for that syscall's exit stop. A signal-delivery stop
  (such as the \<open>SIGTRAP\<close> after an \<open>execve\<close> of the child) is one stop more, and from
  then on the first stop of a pass is a syscall-exit stop and the second the entry stop
  of the next syscall.
\<close>

datatype stop_kind = Syscall_entry | Syscall_exit | Signal_delivery

text \<open>
  What the tracer cannot decide during one pass through the loop:
  \<^item> which calls fail, and whether \<open>malloc\<close> returns null;
  \<^item> the kind of the first stop and the registers of the child there (\<open>entry_regs\<close>,
    named after what keyed.c takes the stop for);
  \<^item> the child's memory; how many of the 13 bytes asked for \<open>process_vm_readv\<close>
    transfers when it does not fail (keyed.c tests its result against \<open>-1\<close> only), and
    what the array \<open>path\<close>, which is not initialised, held before;
  \<^item> the register file at the second stop, as a function of the register file the
    child was resumed with (\<open>kernel\<close>), and the kind of that stop;
  \<^item> the most bytes \<open>process_vm_writev\<close> transfers when it does not fail (its result
    too is tested against \<open>-1\<close> only; Linux transfers at most \<open>0x7ffff000\<close> bytes in one
    call and stops early at an unmapped page).
\<close>

record stop_env =
  fails :: "call_site \<Rightarrow> bool"
  malloc_fails :: bool
  first_stop :: stop_kind
  entry_regs :: user_regs
  child_mem :: "u64 \<Rightarrow> byte"
  readv_count :: nat
  stale_path :: "nat \<Rightarrow> byte"
  kernel :: "user_regs \<Rightarrow> user_regs"
  second_stop :: stop_kind
  writev_limit :: nat

text \<open>What \<open>main\<close> fixes before the loop: the derived key and \<open>fake_pid\<close> (a
  \<open>long\<close>, \<open>-1\<close> when \<open>-p\<close> was not given). \<open>verbose\<close> only prints and is left out.\<close>

record config =
  key :: "byte list"
  fake_pid :: u64

text \<open>The option \<open>-p\<close>: \<open>fake_pid = optarg ? atoi(optarg) : 2\<close>. The argument is the
  \<open>int\<close> that \<open>atoi\<close> returns when an argument is attached, \<open>None\<close> when none is.\<close>

definition option_p :: "i32 option \<Rightarrow> u64" where
  "option_p a = (case a of Some v \<Rightarrow> scast v | None \<Rightarrow> 2)"

text \<open>The locals of \<open>main\<close> that live across iterations. \<open>monitor_fd\<close> is an array of
  16 \<open>int\<close>; \<open>nmonitor\<close> counts its used entries.\<close>

record tracer =
  nmonitor :: nat
  monitor_fd :: "i32 list"
  buflen :: u64
  buf :: "byte list"

definition countof_monitor_fd :: nat where
  "countof_monitor_fd = 16"

text \<open>The state before the first iteration. The array is uninitialised in C; its
  entries from \<open>nmonitor\<close> on are never read.\<close>

definition initial_tracer :: tracer where
  "initial_tracer =
     \<lparr>nmonitor = 0, monitor_fd = replicate countof_monitor_fd 0, buflen = 0, buf = []\<rparr>"

definition monitored :: "tracer \<Rightarrow> i32 list" where
  "monitored s = take (nmonitor s) (monitor_fd s)"

definition ptrace_call :: "stop_env \<Rightarrow> call_site \<Rightarrow> halt + 'a \<Rightarrow> halt + 'a" where
  "ptrace_call e c k = (if fails e c then Inl (Trace_error c) else k)"

section \<open>The syscall-entry stop\<close>

text \<open>\<open>for (int i = 0; i < nmonitor; i++) if (monitor_fd[i] == fd) ... break\<close>: the
  first index that holds \<open>fd\<close>.\<close>

function find_monitor :: "i32 list \<Rightarrow> nat \<Rightarrow> i32 \<Rightarrow> nat \<Rightarrow> nat option" where
  "find_monitor fds n fd i =
     (if i < n then (if fds ! i = fd then Some i else find_monitor fds n fd (Suc i))
      else None)"
  by pat_completeness auto
termination
  by (relation "measure (\<lambda>(fds, n, fd, i). n - i)") auto

declare find_monitor.simps [simp del]

definition byte_of_char :: "char \<Rightarrow> byte" where
  "byte_of_char c = of_nat (of_char c)"

text \<open>A C string literal: its characters and the terminating NUL.\<close>

definition c_literal :: "string \<Rightarrow> byte list" where
  "c_literal s = map byte_of_char s @ [0]"

text \<open>\<open>!memcmp(a, b, n)\<close>.\<close>

definition memcmp_eq :: "byte list \<Rightarrow> byte list \<Rightarrow> nat \<Rightarrow> bool" where
  "memcmp_eq a b n = (take n a = take n b)"

text \<open>The \<open>len\<close> bytes of the child's memory at \<open>addr\<close>.\<close>

definition read_child :: "(u64 \<Rightarrow> byte) \<Rightarrow> u64 \<Rightarrow> nat \<Rightarrow> byte list" where
  "read_child m addr len = map (\<lambda>i. m (addr + of_nat i)) [0..<len]"

text \<open>\<open>char path[13]\<close> after a \<open>process_vm_readv\<close> of 13 bytes at \<open>addr\<close> that did not
  return \<open>-1\<close>: the bytes transferred come from the child, the others are what the array
  held before.\<close>

definition read_path :: "stop_env \<Rightarrow> u64 \<Rightarrow> byte list" where
  "read_path e addr =
     map (\<lambda>i. if i < readv_count e then child_mem e (addr + of_nat i) else stale_path e i)
       [0..<13]"

text \<open>\<open>!memcmp(path, "/dev/random", 12) || !memcmp(path, "/dev/urandom", 13)\<close>.\<close>

definition is_entropy_path :: "byte list \<Rightarrow> bool" where
  "is_entropy_path path =
     (memcmp_eq path (c_literal ''/dev/random'') 12
      \<or> memcmp_eq path (c_literal ''/dev/urandom'') 13)"

text \<open>The locals \<open>size\<close>, \<open>dest\<close> and \<open>capture_fd\<close> after the first \<open>switch\<close>.
  \<open>dest\<close> is uninitialised in C unless \<open>size\<close> is set with it; it is 0 here and read
  only when \<open>size\<close> is not 0.\<close>

record classified =
  size_req :: u64
  dest :: u64
  capture_fd :: bool

definition no_action :: classified where
  "no_action = \<lparr>size_req = 0, dest = 0, capture_fd = False\<rparr>"

text \<open>The first \<open>switch (syscall)\<close>.\<close>

definition classify :: "stop_env \<Rightarrow> user_regs \<Rightarrow> tracer \<Rightarrow> halt + classified \<times> tracer" where
  "classify e regs s =
     (let syscall = orig_rax regs in
      if syscall = SYS_exit \<or> syscall = SYS_exit_group then Inl (Exited (ucast (rdi regs)))
      else if syscall = SYS_open then
        ptrace_call e Readv_path
          (let path = read_path e (rdi regs) in
           if is_entropy_path path
           then (if nmonitor s = countof_monitor_fd then Inl Too_many_fds
                 else Inr (no_action\<lparr>capture_fd := True\<rparr>, s))
           else Inr (no_action, s))
      else if syscall = SYS_close then
        (let fd = ucast (rdi regs) in
         case find_monitor (monitor_fd s) (nmonitor s) fd 0 of
           Some i \<Rightarrow>
             Inr (no_action,
                  s\<lparr>nmonitor := nmonitor s - 1,
                    monitor_fd := (monitor_fd s)[i := monitor_fd s ! (nmonitor s - 1)]\<rparr>)
         | None \<Rightarrow> Inr (no_action, s))
      else if syscall = SYS_read then
        (let fd = ucast (rdi regs) in
         case find_monitor (monitor_fd s) (nmonitor s) fd 0 of
           Some i \<Rightarrow> Inr (no_action\<lparr>dest := rsi regs, size_req := rdx regs\<rparr>, s)
         | None \<Rightarrow> Inr (no_action, s))
      else if syscall = SYS_getrandom then
        Inr (no_action\<lparr>dest := rdi regs, size_req := rsi regs\<rparr>, s)
      else Inr (no_action, s))"

text \<open>
  The state when the child is about to be resumed into the syscall: the local
  \<open>syscall\<close>, the classification, the tracer's state, and the register file the child
  holds (after \<open>PTRACE_SETREGS\<close>, if it ran).
\<close>

record entered =
  syscall :: u64
  cls :: classified
  tracer_state :: tracer
  child_regs :: user_regs

text \<open>\<open>if (size)\<close> at entry: disarm the syscall and grow the buffer. A fresh buffer is
  uninitialised in C; it is zero here and overwritten before it is read.\<close>

definition disarm :: "stop_env \<Rightarrow> user_regs \<Rightarrow> classified \<Rightarrow> tracer \<Rightarrow> halt + entered" where
  "disarm e regs c s =
     (if size_req c \<noteq> 0 then
        (let regs' = regs\<lparr>orig_rax := - 1\<rparr> in
         ptrace_call e Setregs
           (if buflen s < size_req c then
              (if malloc_fails e then Inl Out_of_memory
               else Inr \<lparr>syscall = orig_rax regs, cls = c,
                         tracer_state = s\<lparr>buflen := size_req c,
                                          buf := replicate (unat (size_req c)) 0\<rparr>,
                         child_regs = regs'\<rparr>)
            else Inr \<lparr>syscall = orig_rax regs, cls = c, tracer_state = s, child_regs = regs'\<rparr>))
      else Inr \<lparr>syscall = orig_rax regs, cls = c, tracer_state = s, child_regs = regs\<rparr>)"

text \<open>From the top of the loop body to the second \<open>PTRACE_SYSCALL\<close>.\<close>

definition entry_stop :: "stop_env \<Rightarrow> tracer \<Rightarrow> halt + entered" where
  "entry_stop e s =
     ptrace_call e Resume_entry (ptrace_call e Wait_entry (ptrace_call e Getregs_entry
       (case classify e (entry_regs e) s of
          Inl h \<Rightarrow> Inl h
        | Inr (c, s') \<Rightarrow> disarm e (entry_regs e) c s')))"

section \<open>The syscall-exit stop\<close>

text \<open>\<open>static const unsigned char nonce[crypto_stream_chacha20_NONCEBYTES] = {0}\<close>.\<close>

definition nonce :: "byte list" where
  "nonce = replicate crypto_stream_chacha20_NONCEBYTES 0"

text \<open>
  What one pass does to the child: the register file it is resumed with after the
  first stop, the bytes \<open>process_vm_writev\<close> stored at the second stop and their address,
  and the register file it holds when the pass ends (with which the next pass resumes
  it).
\<close>

record effects =
  resumed :: user_regs
  written :: "(u64 \<times> byte list) option"
  returned :: user_regs

text \<open>\<open>if (size)\<close> at exit: fill the buffer from the keystream, copy it to the child,
  poke the size into \<open>rax\<close>. \<open>process_vm_writev\<close> may transfer fewer bytes than asked
  for; keyed.c goes on unless the result is \<open>-1\<close>.\<close>

definition substitute ::
  "config \<Rightarrow> stop_env \<Rightarrow> classified \<Rightarrow> tracer \<Rightarrow> user_regs
     \<Rightarrow> halt + tracer \<times> (u64 \<times> byte list) option \<times> user_regs" where
  "substitute cfg e c s child =
     (if size_req c \<noteq> 0 then
        (let n = unat (size_req c);
             buf' = crypto_stream_chacha20 n nonce (key cfg) @ drop n (buf s)
         in ptrace_call e Writev_buf (ptrace_call e Poke_size
              (Inr (s\<lparr>buf := buf'\<rparr>, Some (dest c, take (min n (writev_limit e)) buf'),
                    child\<lparr>rax := size_req c\<rparr>))))
      else Inr (s, None, child))"

text \<open>\<open>if (capture_fd)\<close>: \<open>monitor_fd[nmonitor++] = (int)regs.rax\<close>.\<close>

definition capture :: "stop_env \<Rightarrow> classified \<Rightarrow> tracer \<Rightarrow> user_regs \<Rightarrow> halt + tracer" where
  "capture e c s child =
     (if capture_fd c then
        ptrace_call e Getregs_exit
          (let fd = ucast (rax child) in
           Inr (s\<lparr>monitor_fd := (monitor_fd s)[nmonitor s := fd], nmonitor := nmonitor s + 1\<rparr>))
      else Inr s)"

text \<open>The second \<open>switch (syscall)\<close>.\<close>

definition forge_pid :: "config \<Rightarrow> stop_env \<Rightarrow> u64 \<Rightarrow> user_regs \<Rightarrow> halt + user_regs" where
  "forge_pid cfg e nr child =
     (if nr = SYS_getpid \<and> fake_pid cfg \<noteq> - 1
      then ptrace_call e Poke_pid (Inr (child\<lparr>rax := fake_pid cfg\<rparr>))
      else Inr child)"

text \<open>From the second \<open>PTRACE_SYSCALL\<close> to the end of the loop body.\<close>

definition exit_stop :: "config \<Rightarrow> stop_env \<Rightarrow> entered \<Rightarrow> halt + tracer \<times> effects" where
  "exit_stop cfg e r =
     ptrace_call e Resume_exit (ptrace_call e Wait_exit
       (case substitute cfg e (cls r) (tracer_state r) (kernel e (child_regs r)) of
          Inl h \<Rightarrow> Inl h
        | Inr (s1, w, child1) \<Rightarrow>
            (case capture e (cls r) s1 child1 of
               Inl h \<Rightarrow> Inl h
             | Inr s2 \<Rightarrow>
                 (case forge_pid cfg e (syscall r) child1 of
                    Inl h \<Rightarrow> Inl h
                  | Inr child2 \<Rightarrow>
                      Inr (s2, \<lparr>resumed = child_regs r, written = w, returned = child2\<rparr>)))))"

text \<open>One pass through the body of \<open>for (;;)\<close>.\<close>

definition iteration :: "config \<Rightarrow> stop_env \<Rightarrow> tracer \<Rightarrow> halt + tracer \<times> effects" where
  "iteration cfg e s =
     (case entry_stop e s of Inl h \<Rightarrow> Inl h | Inr r \<Rightarrow> exit_stop cfg e r)"

text \<open>
  The loop over the stops the child goes through. It ends only when the tracer exits
  (\<open>Inl\<close>); after the last stop given it is still running (\<open>Inr\<close>). The effects of the
  completed iterations come first.
\<close>

fun trace_loop :: "config \<Rightarrow> stop_env list \<Rightarrow> tracer \<Rightarrow> effects list \<times> (halt + tracer)" where
  "trace_loop cfg [] s = ([], Inr s)"
| "trace_loop cfg (e # es) s =
     (case iteration cfg e s of
        Inl h \<Rightarrow> ([], Inl h)
      | Inr (s', fx) \<Rightarrow> (case trace_loop cfg es s' of (fxs, r) \<Rightarrow> (fx # fxs, r)))"

text \<open>The buffers the child received, in order.\<close>

definition delivered :: "effects list \<Rightarrow> byte list list" where
  "delivered fxs = concat (map (\<lambda>fx. case written fx of None \<Rightarrow> [] | Some (d, bs) \<Rightarrow> [bs]) fxs)"


section \<open>Predicates and examples used in the statements\<close>

text \<open>What holds of the tracer's state between iterations: the count stays within the
  array.\<close>

definition tracer_inv :: "tracer \<Rightarrow> bool" where
  "tracer_inv s = (nmonitor s \<le> countof_monitor_fd \<and> length (monitor_fd s) = countof_monitor_fd)"

text \<open>The registers at a syscall-entry stop ask for \<open>sz\<close> bytes of entropy at address
  \<open>d\<close>: any \<open>getrandom(d, sz, _)\<close>, or \<open>read(fd, d, sz)\<close> on a monitored \<open>fd\<close>.\<close>

definition entropy_request :: "tracer \<Rightarrow> user_regs \<Rightarrow> u64 \<Rightarrow> u64 \<Rightarrow> bool" where
  "entropy_request s regs d sz =
     (orig_rax regs = SYS_getrandom \<and> d = rdi regs \<and> sz = rsi regs
      \<or> orig_rax regs = SYS_read \<and> ucast (rdi regs) \<in> set (monitored s)
          \<and> d = rsi regs \<and> sz = rdx regs)"

text \<open>The stop is the entry of an \<open>open\<close> whose path the tracer takes for an entropy
  device, and the value that \<open>open\<close> returns (as the \<open>int\<close> the tracer stores).\<close>

definition entropy_open :: "stop_env \<Rightarrow> bool" where
  "entropy_open e =
     (orig_rax (entry_regs e) = SYS_open
      \<and> is_entropy_path (read_path e (rdi (entry_regs e))))"

definition returned_fd :: "stop_env \<Rightarrow> i32" where
  "returned_fd e = ucast (rax (kernel e (entry_regs e)))"

text \<open>The child's memory holds the C string \<open>p\<close> at address \<open>a\<close>: the bytes of \<open>p\<close>,
  none of them 0, then a 0.\<close>

definition holds_c_string :: "(u64 \<Rightarrow> byte) \<Rightarrow> u64 \<Rightarrow> byte list \<Rightarrow> bool" where
  "holds_c_string m a p = (0 \<notin> set p \<and> read_child m a (Suc (length p)) = p @ [0])"

text \<open>The path argument of the \<open>open\<close> at the first stop points to the C string \<open>p\<close>, and
  the string is readable: \<open>process_vm_readv\<close> transfers it with its NUL, or all 13 bytes.\<close>

definition path_argument :: "stop_env \<Rightarrow> byte list \<Rightarrow> bool" where
  "path_argument e p =
     (holds_c_string (child_mem e) (rdi (entry_regs e)) p
      \<and> min 13 (Suc (length p)) \<le> readv_count e)"

text \<open>The two stops of the pass are the entry stop and the exit stop of one syscall.\<close>

definition paired :: "stop_env \<Rightarrow> bool" where
  "paired e = (first_stop e = Syscall_entry \<and> second_stop e = Syscall_exit)"

text \<open>The tracer's state after its buffer has been grown, if too short, and filled with
  the first \<open>sz\<close> bytes of the keystream.\<close>

definition filled :: "config \<Rightarrow> tracer \<Rightarrow> u64 \<Rightarrow> tracer" where
  "filled cfg s sz =
     (if buflen s < sz
      then s\<lparr>buflen := sz, buf := crypto_stream_chacha20 (unat sz) nonce (key cfg)\<rparr>
      else s\<lparr>buf := crypto_stream_chacha20 (unat sz) nonce (key cfg) @ drop (unat sz) (buf s)\<rparr>)"


text \<open>
  The syscalls that enter the kernel in a run, each with the tracer's state at its entry
  stop, the registers at that stop and the registers the child is resumed with. A
  syscall whose entry stop is the first stop of a pass enters the kernel when the tracer
  reaches the second \<open>PTRACE_SYSCALL\<close> of the pass and that call succeeds. A syscall whose
  entry stop is the second stop of a pass enters it when the tracer survives the pass and
  the first \<open>PTRACE_SYSCALL\<close> of the next pass succeeds.
\<close>

type_synonym kernel_entry = "tracer \<times> user_regs \<times> user_regs"

definition entry_at_first :: "stop_env \<Rightarrow> tracer \<Rightarrow> kernel_entry list" where
  "entry_at_first e s =
     (case entry_stop e s of
        Inl h \<Rightarrow> []
      | Inr r \<Rightarrow>
          if first_stop e = Syscall_entry \<and> \<not> fails e Resume_exit
          then [(s, entry_regs e, child_regs r)] else [])"

definition entry_at_second :: "stop_env \<Rightarrow> tracer \<Rightarrow> effects \<Rightarrow> stop_env list \<Rightarrow> kernel_entry list" where
  "entry_at_second e s' fx es =
     (if second_stop e = Syscall_entry
         \<and> (case es of [] \<Rightarrow> False | e' # es' \<Rightarrow> \<not> fails e' Resume_entry)
      then [(s', kernel e (resumed fx), returned fx)] else [])"

fun kernel_entries :: "config \<Rightarrow> stop_env list \<Rightarrow> tracer \<Rightarrow> kernel_entry list" where
  "kernel_entries cfg [] s = []"
| "kernel_entries cfg (e # es) s =
     entry_at_first e s @
     (case iteration cfg e s of
        Inl h \<Rightarrow> []
      | Inr (s', fx) \<Rightarrow> entry_at_second e s' fx es @ kernel_entries cfg es s')"

text \<open>An entropy request for more than 0 bytes (a \<open>getrandom\<close>, or a \<open>read\<close> on a
  descriptor monitored at that moment) that enters the kernel with its own syscall
  number.\<close>

definition undisarmed :: "kernel_entry \<Rightarrow> bool" where
  "undisarmed x =
     (case x of (s, req, res) \<Rightarrow>
        (orig_rax req = SYS_getrandom \<and> rsi req \<noteq> 0
         \<or> orig_rax req = SYS_read \<and> ucast (rdi req) \<in> set (monitored s) \<and> rdx req \<noteq> 0)
        \<and> orig_rax res = orig_rax req)"

text \<open>
  The monitored set as the specification describes it, along the stops of a run: a
  descriptor enters when an observed \<open>open\<close> of an entropy device returns it and leaves
  when a \<open>close\<close> of it is observed.
\<close>

definition spec_M_step :: "i32 set \<Rightarrow> stop_env \<Rightarrow> i32 set" where
  "spec_M_step M e =
     (if entropy_open e then insert (returned_fd e) M
      else if orig_rax (entry_regs e) = SYS_close then M - {ucast (rdi (entry_regs e))}
      else M)"

fun spec_M :: "i32 set \<Rightarrow> stop_env list \<Rightarrow> i32 set" where
  "spec_M M [] = M"
| "spec_M M (e # es) = spec_M (spec_M_step M e) es"

text \<open>Every observed \<open>open\<close> of an entropy device in the run returns a descriptor: a
  value that is not negative and not monitored at that moment.\<close>

fun opens_fresh :: "i32 set \<Rightarrow> stop_env list \<Rightarrow> bool" where
  "opens_fresh M [] = True"
| "opens_fresh M (e # es) =
     ((if entropy_open e then 0 \<le> sint (returned_fd e) \<and> returned_fd e \<notin> M else True)
      \<and> opens_fresh (spec_M_step M e) es)"

text \<open>Concrete stops for the examples: the registers of a syscall at its entry stop
  (\<open>rax\<close> holds \<open>-ENOSYS\<close> there), a kernel that returns \<open>ret\<close> for every syscall number
  but the invalid \<open>-1\<close>, a memory that holds the bytes \<open>bs\<close> at address \<open>a\<close>, and a pass
  in which no call fails, the stops are the entry and the exit of one syscall, and both
  transfers are complete.\<close>

definition syscall_regs :: "u64 \<Rightarrow> u64 \<Rightarrow> u64 \<Rightarrow> u64 \<Rightarrow> user_regs" where
  "syscall_regs nr a0 a1 a2 = \<lparr>orig_rax = nr, rax = - 38, rdi = a0, rsi = a1, rdx = a2\<rparr>"

definition native_kernel :: "u64 \<Rightarrow> user_regs \<Rightarrow> user_regs" where
  "native_kernel ret r = r\<lparr>rax := (if orig_rax r = - 1 then - 38 else ret)\<rparr>"

definition mem_with :: "u64 \<Rightarrow> byte list \<Rightarrow> u64 \<Rightarrow> byte" where
  "mem_with a bs x = (let i = unat (x - a) in if i < length bs then bs ! i else 0)"

definition stop_of :: "user_regs \<Rightarrow> (u64 \<Rightarrow> byte) \<Rightarrow> u64 \<Rightarrow> stop_env" where
  "stop_of regs m ret =
     \<lparr>fails = (\<lambda>c. False), malloc_fails = False, first_stop = Syscall_entry,
      entry_regs = regs, child_mem = m, readv_count = 13, stale_path = (\<lambda>i. 0),
      kernel = native_kernel ret, second_stop = Syscall_exit, writev_limit = 2147479552\<rparr>"

definition zero_key_config :: config where
  "zero_key_config = \<lparr>key = replicate 32 0, fake_pid = - 1\<rparr>"

definition getrandom_stop :: "u64 \<Rightarrow> u64 \<Rightarrow> stop_env" where
  "getrandom_stop p n = stop_of (syscall_regs SYS_getrandom p n 0) (\<lambda>a. 0) n"

definition open_stop :: "string \<Rightarrow> u64 \<Rightarrow> stop_env" where
  "open_stop p ret = stop_of (syscall_regs SYS_open 8192 0 0) (mem_with 8192 (c_literal p)) ret"

definition read_stop :: "u64 \<Rightarrow> u64 \<Rightarrow> u64 \<Rightarrow> u64 \<Rightarrow> stop_env" where
  "read_stop fd p n ret = stop_of (syscall_regs SYS_read fd p n) (\<lambda>a. 0) ret"

definition close_stop :: "u64 \<Rightarrow> stop_env" where
  "close_stop fd = stop_of (syscall_regs SYS_close fd 0 0) (\<lambda>a. 0) 0"


text \<open>
  Stops that are not the entry and exit of one syscall. \<open>signal_stop next\<close> is a pass
  whose first stop is a signal-delivery stop outside any syscall (\<open>orig_rax\<close> is \<open>-1\<close>
  there) and whose second stop is the entry stop of the child's next syscall, with
  registers \<open>next\<close>. \<open>shifted_stop done next\<close> is a pass after it: the first stop is the
  exit stop of the syscall that ran, with registers \<open>done\<close>, the second the entry stop
  of the next one.
\<close>

definition signal_stop :: "user_regs \<Rightarrow> stop_env" where
  "signal_stop next =
     \<lparr>fails = (\<lambda>c. False), malloc_fails = False, first_stop = Signal_delivery,
      entry_regs = \<lparr>orig_rax = - 1, rax = 0, rdi = 0, rsi = 0, rdx = 0\<rparr>,
      child_mem = (\<lambda>a. 0), readv_count = 13, stale_path = (\<lambda>i. 0),
      kernel = (\<lambda>r. next), second_stop = Syscall_entry, writev_limit = 2147479552\<rparr>"

definition shifted_stop :: "user_regs \<Rightarrow> user_regs \<Rightarrow> stop_env" where
  "shifted_stop done next =
     \<lparr>fails = (\<lambda>c. False), malloc_fails = False, first_stop = Syscall_exit,
      entry_regs = done,
      child_mem = (\<lambda>a. 0), readv_count = 13, stale_path = (\<lambda>i. 0),
      kernel = (\<lambda>r. next), second_stop = Syscall_entry, writev_limit = 2147479552\<rparr>"


definition one_monitored :: "i32 \<Rightarrow> tracer" where
  "one_monitored fd =
     initial_tracer\<lparr>monitor_fd := (monitor_fd initial_tracer)[0 := fd], nmonitor := 1\<rparr>"

text \<open>The state after 16 opens of an entropy device that all returned 3: the array is
  full.\<close>

definition full_tracer :: tracer where
  "full_tracer = \<lparr>nmonitor = 16, monitor_fd = replicate 16 3, buflen = 0, buf = []\<rparr>"

section \<open>Basic facts\<close>

lemmas SYS_defs = SYS_read_def SYS_open_def SYS_close_def SYS_getpid_def
  SYS_exit_def SYS_exit_group_def SYS_getrandom_def

lemmas loop_defs = iteration_def entry_stop_def exit_stop_def classify_def disarm_def
  substitute_def capture_def forge_pid_def ptrace_call_def no_action_def is_entropy_path_def

lemmas example_defs = stop_of_def syscall_regs_def native_kernel_def getrandom_stop_def
  zero_key_config_def initial_tracer_def countof_monitor_fd_def

lemma find_monitor_Some:
  "find_monitor fds n fd i = Some j \<Longrightarrow> i \<le> j \<and> j < n \<and> fds ! j = fd"
proof (induction fds n fd i rule: find_monitor.induct)
  case (1 fds n fd i)
  show ?case
  proof (cases "i < n")
    case True
    note lt = this
    show ?thesis
    proof (cases "fds ! i = fd")
      case True
      with lt "1.prems" show ?thesis by (simp add: find_monitor.simps [of fds n fd i])
    next
      case False
      with lt "1.prems" have "find_monitor fds n fd (Suc i) = Some j"
        by (simp add: find_monitor.simps [of fds n fd i])
      with "1.IH" [OF lt False] show ?thesis by simp
    qed
  next
    case False
    with "1.prems" show ?thesis by (simp add: find_monitor.simps [of fds n fd i])
  qed
qed

lemma find_monitor_None:
  "find_monitor fds n fd i = None \<longleftrightarrow> (\<forall>k. i \<le> k \<and> k < n \<longrightarrow> fds ! k \<noteq> fd)"
proof (induction fds n fd i rule: find_monitor.induct)
  case (1 fds n fd i)
  show ?case
  proof (cases "i < n")
    case True
    note lt = this
    show ?thesis
    proof (cases "fds ! i = fd")
      case True
      with lt show ?thesis by (auto simp add: find_monitor.simps [of fds n fd i])
    next
      case False
      have "(\<forall>k. i \<le> k \<and> k < n \<longrightarrow> fds ! k \<noteq> fd) \<longleftrightarrow> (\<forall>k. Suc i \<le> k \<and> k < n \<longrightarrow> fds ! k \<noteq> fd)"
        using False by (metis Suc_leI le_neq_implies_less Suc_leD)
      with "1.IH" [OF lt False] lt False show ?thesis
        by (simp add: find_monitor.simps [of fds n fd i])
    qed
  next
    case False
    then show ?thesis by (auto simp add: find_monitor.simps [of fds n fd i])
  qed
qed

lemma find_monitor_first:
  "find_monitor fds n fd i = Some j \<Longrightarrow> i \<le> k \<Longrightarrow> k < j \<Longrightarrow> fds ! k \<noteq> fd"
proof (induction fds n fd i rule: find_monitor.induct)
  case (1 fds n fd i)
  from "1.prems" find_monitor_Some [of fds n fd i j] have lt: "i < n" by simp
  show ?case
  proof (cases "fds ! i = fd")
    case True
    with lt "1.prems" show ?thesis by (simp add: find_monitor.simps [of fds n fd i])
  next
    case False
    with lt "1.prems" have s: "find_monitor fds n fd (Suc i) = Some j"
      by (simp add: find_monitor.simps [of fds n fd i])
    show ?thesis
    proof (cases "k = i")
      case True
      with False show ?thesis by simp
    next
      case False
      with "1.prems" have "Suc i \<le> k" by simp
      with "1.IH" [OF lt \<open>fds ! i \<noteq> fd\<close> s] "1.prems" show ?thesis by simp
    qed
  qed
qed

lemma set_take_nth: "n \<le> length xs \<Longrightarrow> x \<in> set (take n xs) \<longleftrightarrow> (\<exists>k<n. xs ! k = x)"
  by (auto simp: in_set_conv_nth)

lemma find_monitor_monitored:
  "nmonitor s \<le> length (monitor_fd s) \<Longrightarrow>
   find_monitor (monitor_fd s) (nmonitor s) fd 0 = None \<longleftrightarrow> fd \<notin> set (monitored s)"
  by (auto simp: find_monitor_None monitored_def set_take_nth)

lemma length_crypto_stream_chacha20 [simp]: "length (crypto_stream_chacha20 n v k) = n"
  by (simp add: crypto_stream_chacha20_def)

section \<open>Entropy requests: disarming at entry, substitution at exit\<close>

lemma classify_entropy:
  assumes "tracer_inv s" and "entropy_request s regs d sz" and "sz \<noteq> 0"
  shows "classify e regs s = Inr (no_action\<lparr>dest := d, size_req := sz\<rparr>, s)"
proof -
  from assms(1) have le: "nmonitor s \<le> length (monitor_fd s)" by (simp add: tracer_inv_def)
  from assms(2) show ?thesis
    unfolding entropy_request_def
  proof (elim disjE conjE)
    assume "orig_rax regs = SYS_getrandom" "d = rdi regs" "sz = rsi regs"
    then show ?thesis by (simp add: classify_def SYS_defs)
  next
    assume a: "orig_rax regs = SYS_read" "ucast (rdi regs) \<in> set (monitored s)"
      "d = rsi regs" "sz = rdx regs"
    from a(2) find_monitor_monitored [OF le, of "ucast (rdi regs)"]
    obtain i where "find_monitor (monitor_fd s) (nmonitor s) (ucast (rdi regs)) 0 = Some i"
      by auto
    with a show ?thesis by (simp add: classify_def SYS_defs)
  qed
qed

lemma entropy_entry_result:
  assumes inv: "tracer_inv s" and req: "entropy_request s (entry_regs e) d sz" and nz: "sz \<noteq> 0"
    and ok: "\<not> fails e Resume_entry" "\<not> fails e Wait_entry" "\<not> fails e Getregs_entry"
      "\<not> fails e Setregs"
    and m: "\<not> malloc_fails e"
  shows "entry_stop e s =
           Inr \<lparr>syscall = orig_rax (entry_regs e),
                cls = no_action\<lparr>dest := d, size_req := sz\<rparr>,
                tracer_state = (if buflen s < sz
                                then s\<lparr>buflen := sz, buf := replicate (unat sz) 0\<rparr> else s),
                child_regs = (entry_regs e)\<lparr>orig_rax := - 1\<rparr>\<rparr>"
proof -
  have c: "classify e (entry_regs e) s = Inr (no_action\<lparr>dest := d, size_req := sz\<rparr>, s)"
    using inv req nz by (rule classify_entropy)
  from ok m nz show ?thesis
    by (simp add: entry_stop_def c disarm_def ptrace_call_def no_action_def Let_def)
qed

lemma tracer_inv_initial: "tracer_inv initial_tracer"
  by (simp add: tracer_inv_def initial_tracer_def)


lemma take_upt_min: "take k [0..<n] = [0..<min k n]"
  by (cases "k \<le> n") (simp_all add: min_def)

lemma take_crypto_stream_chacha20:
  "take k (crypto_stream_chacha20 n v kk) = crypto_stream_chacha20 (min k n) v kk"
  by (simp add: crypto_stream_chacha20_def take_map take_upt_min)

lemma entropy_iteration_result:
  assumes inv: "tracer_inv s" and req: "entropy_request s (entry_regs e) d sz" and nz: "sz \<noteq> 0"
    and ok: "\<forall>c. \<not> fails e c" and m: "\<not> malloc_fails e"
  shows "iteration cfg e s =
     Inr (filled cfg s sz,
          \<lparr>resumed = (entry_regs e)\<lparr>orig_rax := - 1\<rparr>,
           written = Some (d, crypto_stream_chacha20 (min (unat sz) (writev_limit e)) nonce (key cfg)),
           returned = (kernel e ((entry_regs e)\<lparr>orig_rax := - 1\<rparr>))\<lparr>rax := sz\<rparr>\<rparr>)"
proof -
  from ok have f: "\<not> fails e Resume_entry" "\<not> fails e Wait_entry" "\<not> fails e Getregs_entry"
      "\<not> fails e Setregs" by simp_all
  have nr: "orig_rax (entry_regs e) \<noteq> SYS_getpid"
    using req by (auto simp: entropy_request_def SYS_defs)
  have t: "take (min (unat sz) (writev_limit e)) (crypto_stream_chacha20 (unat sz) nonce (key cfg))
      = crypto_stream_chacha20 (min (unat sz) (writev_limit e)) nonce (key cfg)"
    by (simp add: take_crypto_stream_chacha20)
  from ok nz nr show ?thesis
    by (simp add: iteration_def entropy_entry_result [OF inv req nz f m] exit_stop_def
        substitute_def capture_def forge_pid_def ptrace_call_def no_action_def Let_def
        filled_def t)
qed



lemma entry_stop_inv:
  assumes "entry_stop e s = Inr r" and "tracer_inv s"
  shows "tracer_inv (tracer_state r)
         \<and> (capture_fd (cls r) \<longrightarrow> nmonitor (tracer_state r) < countof_monitor_fd)"
  using assms
  by (auto simp: entry_stop_def classify_def disarm_def ptrace_call_def no_action_def
      tracer_inv_def Let_def split: if_splits option.splits)

lemma exit_stop_inv:
  assumes "exit_stop cfg e r = Inr (s', fx)" and "tracer_inv (tracer_state r)"
    and "capture_fd (cls r) \<longrightarrow> nmonitor (tracer_state r) < countof_monitor_fd"
  shows "tracer_inv s'"
  using assms
  by (auto simp: exit_stop_def substitute_def capture_def forge_pid_def ptrace_call_def
      tracer_inv_def Let_def split: if_splits)

lemma iteration_inv:
  assumes "iteration cfg e s = Inr (s', fx)" and "tracer_inv s"
  shows "tracer_inv s'"
proof (cases "entry_stop e s")
  case (Inl h)
  with assms(1) show ?thesis by (simp add: iteration_def)
next
  case (Inr r)
  with assms(1) have x: "exit_stop cfg e r = Inr (s', fx)" by (simp add: iteration_def)
  from entry_stop_inv [OF Inr assms(2)] exit_stop_inv [OF x] show ?thesis by blast
qed

lemma trace_loop_inv:
  "trace_loop cfg es s = (fxs, Inr s') \<Longrightarrow> tracer_inv s \<Longrightarrow> tracer_inv s'"
proof (induction es arbitrary: s fxs)
  case Nil
  then show ?case by simp
next
  case (Cons e es)
  show ?case
  proof (cases "iteration cfg e s")
    case (Inl h)
    with Cons.prems show ?thesis by simp
  next
    case (Inr p)
    obtain s1 fx where p: "p = (s1, fx)" by (cases p)
    obtain fxs1 r1 where t: "trace_loop cfg es s1 = (fxs1, r1)" by (cases "trace_loop cfg es s1")
    from Cons.prems(1) Inr p t have "r1 = Inr s'" by simp
    with t have "trace_loop cfg es s1 = (fxs1, Inr s')" by simp
    moreover from Inr p Cons.prems(2) have "tracer_inv s1" by (auto intro: iteration_inv)
    ultimately show ?thesis by (rule Cons.IH)
  qed
qed



lemma signal_iteration:
  "iteration cfg (signal_stop next) s =
     Inr (s, \<lparr>resumed = \<lparr>orig_rax = - 1, rax = 0, rdi = 0, rsi = 0, rdx = 0\<rparr>, written = None,
              returned = next\<rparr>)"
  by (simp add: loop_defs signal_stop_def SYS_defs Let_def)

lemma paired_stop_of [simp]: "paired (stop_of regs m ret)"
  by (simp add: paired_def stop_of_def)

lemma fails_stop_of [simp]: "\<not> fails (stop_of regs m ret) c" "\<not> malloc_fails (stop_of regs m ret)"
  by (simp_all add: stop_of_def)
















section \<open>Forging the process id\<close>








lemma option_p_seven: "option_p (Some 7) = 7"
  by (simp add: option_p_def)




section \<open>Classifying the path of an open\<close>

lemma take_read_child: "k \<le> n \<Longrightarrow> take k (read_child m a n) = read_child m a k"
  by (simp add: read_child_def take_map)

lemma length_read_child [simp]: "length (read_child m a n) = n"
  by (simp add: read_child_def)

lemma length_read_path [simp]: "length (read_path e a) = 13"
  by (simp add: read_path_def)

lemma take_read_path:
  "k \<le> 13 \<Longrightarrow> k \<le> readv_count e \<Longrightarrow> take k (read_path e a) = read_child (child_mem e) a k"
  by (simp add: read_path_def read_child_def take_map min_def)

lemma c_string_prefix_unique:
  assumes zp: "0 \<notin> set p" and zq: "0 \<notin> set q"
    and xs: "take (min N (Suc (length p))) xs = take (min N (Suc (length p))) (p @ [0 :: byte])"
    and n: "Suc (length q) \<le> N"
  shows "take (Suc (length q)) xs = q @ [0] \<longleftrightarrow> p = q"
proof
  assume "p = q"
  with xs n show "take (Suc (length q)) xs = q @ [0]" by (simp add: min.absorb2)
next
  assume t: "take (Suc (length q)) xs = q @ [0]"
  have px: "xs ! i = (p @ [0]) ! i" if "i < N" "i \<le> length p" for i
  proof -
    from that have i: "i < min N (Suc (length p))" by simp
    have "xs ! i = take (min N (Suc (length p))) xs ! i" using i by (simp only: nth_take)
    also have "\<dots> = take (min N (Suc (length p))) (p @ [0]) ! i" by (simp only: xs)
    also have "\<dots> = (p @ [0]) ! i" using i by (simp only: nth_take)
    finally show ?thesis .
  qed
  have qx: "xs ! i = (q @ [0]) ! i" if "i \<le> length q" for i
  proof -
    from that have i: "i < Suc (length q)" by simp
    have "xs ! i = take (Suc (length q)) xs ! i" using i by (simp only: nth_take)
    also have "\<dots> = (q @ [0]) ! i" by (simp only: t)
    finally show ?thesis .
  qed
  have len: "length p = length q"
  proof (rule ccontr)
    assume "length p \<noteq> length q"
    then consider "length p < length q" | "length q < length p" by linarith
    then show False
    proof cases
      case 1
      with n have "length p < N" by simp
      from px [OF this] qx [of "length p"] 1 have "q ! length p = 0"
        by (simp add: nth_append)
      with 1 zq show False by (metis nth_mem)
    next
      case 2
      from n have "length q < N" by simp
      from px [OF this] qx [of "length q"] 2 have "p ! length q = 0"
        by (simp add: nth_append)
      with 2 zp show False by (metis nth_mem)
    qed
  qed
  with n have m: "min N (Suc (length p)) = Suc (length q)" by simp
  from xs have "take (Suc (length q)) xs = take (Suc (length q)) (p @ [0])"
    by (simp only: m)
  with t len have "q @ [0] = p @ [0]" by simp
  then show "p = q" by simp
qed

lemma literal_bytes:
  "c_literal ''/dev/random'' = map byte_of_char ''/dev/random'' @ [0]"
  "c_literal ''/dev/urandom'' = map byte_of_char ''/dev/urandom'' @ [0]"
  "0 \<notin> set (map byte_of_char ''/dev/random'')"
  "0 \<notin> set (map byte_of_char ''/dev/urandom'')"
  "length (map byte_of_char ''/dev/random'') = 11"
  "length (map byte_of_char ''/dev/urandom'') = 12"
  by (simp_all add: c_literal_def byte_of_char_def)

lemma is_entropy_path_take:
  "is_entropy_path xs \<longleftrightarrow>
     take 12 xs = c_literal ''/dev/random'' \<or> take 13 xs = c_literal ''/dev/urandom''"
proof -
  have "take 12 (c_literal ''/dev/random'') = c_literal ''/dev/random''"
    "take 13 (c_literal ''/dev/urandom'') = c_literal ''/dev/urandom''"
    by (simp_all add: c_literal_def)
  then show ?thesis
    by (simp add: is_entropy_path_def memcmp_eq_def)
qed

lemma path_argument_read:
  assumes "path_argument e p"
  shows "take (min 13 (Suc (length p))) (read_path e (rdi (entry_regs e)))
           = take (min 13 (Suc (length p))) (p @ [0])"
proof -
  from assms have r: "read_child (child_mem e) (rdi (entry_regs e)) (Suc (length p)) = p @ [0]"
    and c: "min 13 (Suc (length p)) \<le> readv_count e"
    by (simp_all add: path_argument_def holds_c_string_def)
  have "take (min 13 (Suc (length p))) (read_path e (rdi (entry_regs e)))
          = read_child (child_mem e) (rdi (entry_regs e)) (min 13 (Suc (length p)))"
    using c by (intro take_read_path) simp_all
  also have "\<dots> = take (min 13 (Suc (length p)))
                     (read_child (child_mem e) (rdi (entry_regs e)) (Suc (length p)))"
    by (simp only: take_read_child [OF min.cobounded2])
  finally show ?thesis by (simp only: r)
qed

lemma is_entropy_path_c_string:
  assumes "path_argument e p"
  shows "is_entropy_path (read_path e (rdi (entry_regs e))) \<longleftrightarrow>
           p = map byte_of_char ''/dev/random'' \<or> p = map byte_of_char ''/dev/urandom''"
proof -
  from assms have z: "0 \<notin> set p" by (simp add: path_argument_def holds_c_string_def)
  note x = path_argument_read [OF assms]
  have a: "take 12 (read_path e (rdi (entry_regs e))) = c_literal ''/dev/random''
           \<longleftrightarrow> p = map byte_of_char ''/dev/random''"
    using c_string_prefix_unique [OF z literal_bytes(3) x]
    by (simp only: literal_bytes(1,5)) simp
  have b: "take 13 (read_path e (rdi (entry_regs e))) = c_literal ''/dev/urandom''
           \<longleftrightarrow> p = map byte_of_char ''/dev/urandom''"
    using c_string_prefix_unique [OF z literal_bytes(4) x]
    by (simp only: literal_bytes(2,6)) simp
  show ?thesis by (simp only: is_entropy_path_take a b)
qed

lemma open_entry_stop:
  assumes "orig_rax (entry_regs e) = SYS_open"
    and "\<not> fails e Resume_entry" "\<not> fails e Wait_entry" "\<not> fails e Getregs_entry"
      "\<not> fails e Readv_path"
  shows "entry_stop e s =
           (if is_entropy_path (read_path e (rdi (entry_regs e)))
            then (if nmonitor s = countof_monitor_fd then Inl Too_many_fds
                  else Inr \<lparr>syscall = SYS_open, cls = no_action\<lparr>capture_fd := True\<rparr>,
                            tracer_state = s, child_regs = entry_regs e\<rparr>)
            else Inr \<lparr>syscall = SYS_open, cls = no_action, tracer_state = s,
                      child_regs = entry_regs e\<rparr>)"
  using assms
  by (simp add: entry_stop_def classify_def disarm_def ptrace_call_def no_action_def
      SYS_defs Let_def)

text \<open>
  C7. When the path argument of an \<open>open\<close> points to the C string \<open>p\<close> in the child's
  memory and the four calls up to \<open>process_vm_readv\<close> succeed, the tracer sets
  \<open>capture_fd\<close> and goes on to the resume (unless the monitored array is full, which is
  fatal) if \<open>p\<close> is \<open>/dev/random\<close> or \<open>/dev/urandom\<close>; for a proper extension such as
  \<open>/dev/urandomXYZ\<close> and for any other path it goes on with \<open>capture_fd\<close> clear. The
  test compares the first 12 bytes read with \<open>/dev/random\<close> and its NUL, or the 13
  bytes read with \<open>/dev/urandom\<close> and its NUL.
\<close>

theorem open_path_classification:
  assumes "orig_rax (entry_regs e) = SYS_open"
    and "path_argument e p"
    and "\<not> fails e Resume_entry" and "\<not> fails e Wait_entry" and "\<not> fails e Getregs_entry"
    and "\<not> fails e Readv_path"
  shows "entry_stop e s =
           (if p = map byte_of_char ''/dev/random'' \<or> p = map byte_of_char ''/dev/urandom''
            then (if nmonitor s = countof_monitor_fd then Inl Too_many_fds
                  else Inr \<lparr>syscall = SYS_open, cls = no_action\<lparr>capture_fd := True\<rparr>,
                            tracer_state = s, child_regs = entry_regs e\<rparr>)
            else Inr \<lparr>syscall = SYS_open, cls = no_action, tracer_state = s,
                      child_regs = entry_regs e\<rparr>)
         \<and> capture_fd (no_action\<lparr>capture_fd := True\<rparr>) \<and> \<not> capture_fd no_action
         \<and> (is_entropy_path (read_path e (rdi (entry_regs e))) \<longleftrightarrow>
              take 12 (read_path e (rdi (entry_regs e))) = c_literal ''/dev/random''
              \<or> take 13 (read_path e (rdi (entry_regs e))) = c_literal ''/dev/urandom'')
         \<and> length (c_literal ''/dev/random'') = 12 \<and> length (c_literal ''/dev/urandom'') = 13"
proof -
  have a: "entry_stop e s =
           (if p = map byte_of_char ''/dev/random'' \<or> p = map byte_of_char ''/dev/urandom''
            then (if nmonitor s = countof_monitor_fd then Inl Too_many_fds
                  else Inr \<lparr>syscall = SYS_open, cls = no_action\<lparr>capture_fd := True\<rparr>,
                            tracer_state = s, child_regs = entry_regs e\<rparr>)
            else Inr \<lparr>syscall = SYS_open, cls = no_action, tracer_state = s,
                      child_regs = entry_regs e\<rparr>)"
    unfolding open_entry_stop [OF assms(1,3-6)] is_entropy_path_c_string [OF assms(2)] ..
  have b: "capture_fd (no_action\<lparr>capture_fd := True\<rparr>)" "\<not> capture_fd no_action"
    by (simp_all add: no_action_def)
  have c: "length (c_literal ''/dev/random'') = 12" "length (c_literal ''/dev/urandom'') = 13"
    by (simp_all add: c_literal_def)
  from a b c is_entropy_path_take [of "read_path e (rdi (entry_regs e))"]
  show ?thesis by blast
qed

lemma open_stop_path_argument:
  "length p \<le> 20 \<Longrightarrow> 0 \<notin> set (map byte_of_char p) \<Longrightarrow>
     path_argument (open_stop p ret) (map byte_of_char p)"
proof -
  assume l: "length p \<le> 20" and z: "0 \<notin> set (map byte_of_char p)"
  have "read_child (mem_with 8192 (c_literal p)) 8192 (Suc (length p)) = c_literal p"
  proof (rule nth_equalityI)
    show "length (read_child (mem_with 8192 (c_literal p)) 8192 (Suc (length p))) = length (c_literal p)"
      by (simp add: c_literal_def)
  next
    fix i assume "i < length (read_child (mem_with 8192 (c_literal p)) 8192 (Suc (length p)))"
    then have i: "i < Suc (length p)" by simp
    with l have "i < 2 ^ 64" by simp
    then have "unat (of_nat i :: u64) = i" by (simp add: unat_of_nat)
    with i show "read_child (mem_with 8192 (c_literal p)) 8192 (Suc (length p)) ! i = c_literal p ! i"
      by (simp add: read_child_def mem_with_def c_literal_def Let_def del: upt_Suc)
  qed
  with z show ?thesis
    by (simp add: path_argument_def holds_c_string_def open_stop_def stop_of_def syscall_regs_def
        c_literal_def)
qed

lemma open_stop_facts:
  "orig_rax (entry_regs (open_stop p ret)) = SYS_open"
  "\<not> fails (open_stop p ret) c"
  "entry_regs (open_stop p ret) = syscall_regs SYS_open 8192 0 0"
  "paired (open_stop p ret)"
  by (simp_all add: open_stop_def stop_of_def syscall_regs_def paired_def)

lemma path_arguments:
  "path_argument (open_stop ''/dev/random'' 3) (map byte_of_char ''/dev/random'')"
  "path_argument (open_stop ''/dev/urandom'' ret) (map byte_of_char ''/dev/urandom'')"
  "path_argument (open_stop ''/dev/urandomXYZ'' 3) (map byte_of_char ''/dev/urandomXYZ'')"
  "path_argument (open_stop ''/dev/null'' 3) (map byte_of_char ''/dev/null'')"
  by (rule open_stop_path_argument; simp add: byte_of_char_def)+

lemma paths_differ:
  "map byte_of_char ''/dev/urandomXYZ'' \<noteq> map byte_of_char ''/dev/random''"
  "map byte_of_char ''/dev/urandomXYZ'' \<noteq> map byte_of_char ''/dev/urandom''"
  "map byte_of_char ''/dev/null'' \<noteq> map byte_of_char ''/dev/random''"
  "map byte_of_char ''/dev/null'' \<noteq> map byte_of_char ''/dev/urandom''"
  by (simp_all add: byte_of_char_def)

lemma initial_not_full: "nmonitor initial_tracer \<noteq> countof_monitor_fd"
  "nmonitor full_tracer = countof_monitor_fd"
  by (simp_all add: initial_tracer_def countof_monitor_fd_def full_tracer_def)

theorem open_path_classification_witness:
  "orig_rax (entry_regs (open_stop ''/dev/random'' 3)) = SYS_open
   \<and> path_argument (open_stop ''/dev/random'' 3) (map byte_of_char ''/dev/random'')
   \<and> (\<forall>c. \<not> fails (open_stop ''/dev/random'' 3) c)
   \<and> entry_stop (open_stop ''/dev/random'' 3) initial_tracer =
       Inr \<lparr>syscall = SYS_open, cls = no_action\<lparr>capture_fd := True\<rparr>,
            tracer_state = initial_tracer, child_regs = syscall_regs SYS_open 8192 0 0\<rparr>
   \<and> path_argument (open_stop ''/dev/urandom'' 3) (map byte_of_char ''/dev/urandom'')
   \<and> entry_stop (open_stop ''/dev/urandom'' 3) initial_tracer =
       Inr \<lparr>syscall = SYS_open, cls = no_action\<lparr>capture_fd := True\<rparr>,
            tracer_state = initial_tracer, child_regs = syscall_regs SYS_open 8192 0 0\<rparr>
   \<and> entry_stop (open_stop ''/dev/urandom'' 3) full_tracer = Inl Too_many_fds
   \<and> path_argument (open_stop ''/dev/urandomXYZ'' 3) (map byte_of_char ''/dev/urandomXYZ'')
   \<and> entry_stop (open_stop ''/dev/urandomXYZ'' 3) initial_tracer =
       Inr \<lparr>syscall = SYS_open, cls = no_action, tracer_state = initial_tracer,
            child_regs = syscall_regs SYS_open 8192 0 0\<rparr>
   \<and> path_argument (open_stop ''/dev/null'' 3) (map byte_of_char ''/dev/null'')
   \<and> entry_stop (open_stop ''/dev/null'' 3) full_tracer =
       Inr \<lparr>syscall = SYS_open, cls = no_action, tracer_state = full_tracer,
            child_regs = syscall_regs SYS_open 8192 0 0\<rparr>
   \<and> capture_fd (no_action\<lparr>capture_fd := True\<rparr>) \<and> \<not> capture_fd no_action"
proof -
  note o = open_stop_facts(1) and f = open_stop_facts(2)
  have nf: "\<forall>c. \<not> fails (open_stop ''/dev/random'' 3) c" by (simp add: f)
  from open_path_classification [OF o path_arguments(1) f f f f, of initial_tracer]
  have r: "entry_stop (open_stop ''/dev/random'' 3) initial_tracer =
       Inr \<lparr>syscall = SYS_open, cls = no_action\<lparr>capture_fd := True\<rparr>,
            tracer_state = initial_tracer, child_regs = syscall_regs SYS_open 8192 0 0\<rparr>"
    and cf: "capture_fd (no_action\<lparr>capture_fd := True\<rparr>)" "\<not> capture_fd no_action"
    by (simp_all add: initial_not_full open_stop_facts(3))
  from open_path_classification [OF o path_arguments(2) f f f f, of 3 initial_tracer]
  have u: "entry_stop (open_stop ''/dev/urandom'' 3) initial_tracer =
       Inr \<lparr>syscall = SYS_open, cls = no_action\<lparr>capture_fd := True\<rparr>,
            tracer_state = initial_tracer, child_regs = syscall_regs SYS_open 8192 0 0\<rparr>"
    by (simp add: initial_not_full open_stop_facts(3))
  from open_path_classification [OF o path_arguments(2) f f f f, of 3 full_tracer]
  have uf: "entry_stop (open_stop ''/dev/urandom'' 3) full_tracer = Inl Too_many_fds"
    by (simp add: initial_not_full)
  from open_path_classification [OF o path_arguments(3) f f f f, of initial_tracer]
  have x: "entry_stop (open_stop ''/dev/urandomXYZ'' 3) initial_tracer =
       Inr \<lparr>syscall = SYS_open, cls = no_action, tracer_state = initial_tracer,
            child_regs = syscall_regs SYS_open 8192 0 0\<rparr>"
    by (simp add: paths_differ open_stop_facts(3))
  from open_path_classification [OF o path_arguments(4) f f f f, of full_tracer]
  have n: "entry_stop (open_stop ''/dev/null'' 3) full_tracer =
       Inr \<lparr>syscall = SYS_open, cls = no_action, tracer_state = full_tracer,
            child_regs = syscall_regs SYS_open 8192 0 0\<rparr>"
    by (simp add: paths_differ open_stop_facts(3))
  from o [of "''/dev/random''" 3] path_arguments(1) nf r path_arguments(2) [of 3] u uf
    path_arguments(3) x path_arguments(4) n cf
  show ?thesis by blast
qed

section \<open>Zero-length requests\<close>

lemma monitored_one_monitored: "monitored (one_monitored fd) = [fd]"
proof -
  have "replicate countof_monitor_fd (0::i32) = 0 # replicate 15 0"
    by (simp add: countof_monitor_fd_def numeral_eq_Suc)
  then show ?thesis
    by (simp add: monitored_def one_monitored_def initial_tracer_def)
qed

lemma tracer_inv_one_monitored: "tracer_inv (one_monitored fd)"
  by (simp add: tracer_inv_def one_monitored_def initial_tracer_def countof_monitor_fd_def)

text \<open>
  C10. A zero-length entropy request (\<open>getrandom\<close> with count 0, or a \<open>read\<close> of 0
  bytes on a monitored descriptor) makes the engine do nothing: the child is resumed with
  the registers it entered with (the syscall number is not replaced), nothing is written
  to its memory, the registers the kernel left at the exit stop are not touched (so
  \<open>rax\<close> is the native result), and the tracer's state, its buffer included, is
  unchanged.
\<close>

theorem zero_length_request_native:
  assumes "entropy_request s (entry_regs e) d 0"
    and "\<not> fails e Resume_entry" and "\<not> fails e Wait_entry" and "\<not> fails e Getregs_entry"
    and "\<not> fails e Resume_exit" and "\<not> fails e Wait_exit"
  shows "iteration cfg e s =
           Inr (s, \<lparr>resumed = entry_regs e, written = None,
                    returned = kernel e (entry_regs e)\<rparr>)"
proof -
  from assms(1) have "orig_rax (entry_regs e) = SYS_getrandom \<and> rsi (entry_regs e) = 0
      \<or> orig_rax (entry_regs e) = SYS_read \<and> rdx (entry_regs e) = 0"
    by (auto simp: entropy_request_def)
  then show ?thesis
  proof
    assume "orig_rax (entry_regs e) = SYS_getrandom \<and> rsi (entry_regs e) = 0"
    with assms(2-) show ?thesis
      by (simp add: loop_defs SYS_defs)
  next
    assume "orig_rax (entry_regs e) = SYS_read \<and> rdx (entry_regs e) = 0"
    with assms(2-) show ?thesis
      by (simp add: loop_defs SYS_defs Let_def split: option.splits)
  qed
qed


theorem zero_length_request_native_witness:
  "entropy_request (one_monitored 3) (entry_regs (read_stop 3 4096 0 0)) 4096 0
   \<and> \<not> fails (read_stop 3 4096 0 0) Resume_entry
   \<and> \<not> fails (read_stop 3 4096 0 0) Wait_entry
   \<and> \<not> fails (read_stop 3 4096 0 0) Getregs_entry
   \<and> \<not> fails (read_stop 3 4096 0 0) Resume_exit
   \<and> \<not> fails (read_stop 3 4096 0 0) Wait_exit
   \<and> iteration zero_key_config (read_stop 3 4096 0 0) (one_monitored 3) =
       Inr (one_monitored 3,
            \<lparr>resumed = syscall_regs SYS_read 3 4096 0, written = None,
             returned = (syscall_regs SYS_read 3 4096 0)\<lparr>rax := 0\<rparr>\<rparr>)"
proof -
  have h: "entropy_request (one_monitored 3) (entry_regs (read_stop 3 4096 0 0)) 4096 0"
    by (simp add: entropy_request_def monitored_one_monitored read_stop_def stop_of_def
        syscall_regs_def)
  have f: "\<And>c. \<not> fails (read_stop 3 4096 0 0) c"
    by (simp add: read_stop_def stop_of_def)
  from zero_length_request_native [OF h f f f f f, of zero_key_config] h f
  show ?thesis
    by (simp add: read_stop_def stop_of_def native_kernel_def syscall_regs_def SYS_defs)
qed

section \<open>The capacity of the monitored array\<close>

lemma full_set_open_fatal:
  assumes "nmonitor s = countof_monitor_fd" and "entropy_open e"
    and "\<not> fails e Resume_entry" and "\<not> fails e Wait_entry" and "\<not> fails e Getregs_entry"
    and "\<not> fails e Readv_path"
  shows "iteration cfg e s = Inl Too_many_fds"
  using assms
  by (simp add: iteration_def entry_stop_def classify_def ptrace_call_def entropy_open_def
      SYS_defs)

text \<open>
  C8. In every state the trace loop reaches, the number of monitored descriptors is at
  most 16, the size of the array. An \<open>open\<close> of an entropy device that is classified
  while 16 descriptors are monitored is fatal (\<open>"too many open file descriptors"\<close>) in
  the entry half of the iteration, before the insertion at the exit stop.
\<close>

theorem monitored_set_bounded:
  "(trace_loop cfg es initial_tracer = (fxs, Inr s)
      \<longrightarrow> nmonitor s \<le> 16 \<and> length (monitored s) \<le> 16 \<and> length (monitor_fd s) = 16)
   \<and> (nmonitor s = 16 \<and> entropy_open e
       \<and> \<not> fails e Resume_entry \<and> \<not> fails e Wait_entry \<and> \<not> fails e Getregs_entry
       \<and> \<not> fails e Readv_path
      \<longrightarrow> iteration cfg e s = Inl Too_many_fds)"
proof (rule conjI; rule impI)
  assume "trace_loop cfg es initial_tracer = (fxs, Inr s)"
  with tracer_inv_initial have "tracer_inv s" by (blast intro: trace_loop_inv)
  then show "nmonitor s \<le> 16 \<and> length (monitored s) \<le> 16 \<and> length (monitor_fd s) = 16"
    by (simp add: tracer_inv_def countof_monitor_fd_def monitored_def)
next
  assume "nmonitor s = 16 \<and> entropy_open e
       \<and> \<not> fails e Resume_entry \<and> \<not> fails e Wait_entry \<and> \<not> fails e Getregs_entry
       \<and> \<not> fails e Readv_path"
  then show "iteration cfg e s = Inl Too_many_fds"
    by (simp add: full_set_open_fatal countof_monitor_fd_def)
qed

lemma entropy_open_urandom: "entropy_open (open_stop ''/dev/urandom'' ret)"
  using is_entropy_path_c_string [OF path_arguments(2), of ret]
  by (simp add: entropy_open_def open_stop_facts(1))

lemma open_entropy_iteration:
  assumes "entropy_open e" and "nmonitor s \<noteq> countof_monitor_fd"
    and "\<not> fails e Resume_entry" "\<not> fails e Wait_entry" "\<not> fails e Getregs_entry"
      "\<not> fails e Readv_path" "\<not> fails e Resume_exit" "\<not> fails e Wait_exit"
      "\<not> fails e Getregs_exit"
  shows "iteration cfg e s =
     Inr (s\<lparr>monitor_fd := (monitor_fd s)[nmonitor s := returned_fd e],
            nmonitor := nmonitor s + 1\<rparr>,
          \<lparr>resumed = entry_regs e, written = None, returned = kernel e (entry_regs e)\<rparr>)"
  using assms
  by (simp add: loop_defs entropy_open_def returned_fd_def SYS_defs Let_def)

lemma returned_fd_open_stop: "returned_fd (open_stop p ret) = ucast ret"
  by (simp add: returned_fd_def open_stop_def stop_of_def native_kernel_def syscall_regs_def
      SYS_defs)

lemma kernel_open_stop:
  "kernel (open_stop p ret) (syscall_regs SYS_open 8192 0 0)
     = (syscall_regs SYS_open 8192 0 0)\<lparr>rax := ret\<rparr>"
  by (simp add: open_stop_def stop_of_def native_kernel_def syscall_regs_def SYS_defs)

lemma open_urandom_iteration_any:
  assumes "nmonitor s \<noteq> countof_monitor_fd"
  shows "iteration cfg (open_stop ''/dev/urandom'' ret) s =
     Inr (s\<lparr>monitor_fd := (monitor_fd s)[nmonitor s := ucast ret], nmonitor := nmonitor s + 1\<rparr>,
          \<lparr>resumed = syscall_regs SYS_open 8192 0 0, written = None,
           returned = (syscall_regs SYS_open 8192 0 0)\<lparr>rax := ret\<rparr>\<rparr>)"
  using open_entropy_iteration [OF entropy_open_urandom assms, of ret cfg]
  by (simp add: open_stop_facts returned_fd_open_stop kernel_open_stop)

lemma open_urandom_iteration:
  "iteration cfg (open_stop ''/dev/urandom'' ret) initial_tracer =
     Inr (one_monitored (ucast ret),
          \<lparr>resumed = syscall_regs SYS_open 8192 0 0, written = None,
           returned = (syscall_regs SYS_open 8192 0 0)\<lparr>rax := ret\<rparr>\<rparr>)"
  using open_urandom_iteration_any [OF initial_not_full(1), of cfg ret]
  by (simp add: one_monitored_def) (simp add: initial_tracer_def)

lemma open_urandom_full:
  assumes "nmonitor s = countof_monitor_fd"
  shows "iteration cfg (open_stop ''/dev/urandom'' ret) s = Inl Too_many_fds"
  using assms entropy_open_urandom [of ret]
  by (simp add: full_set_open_fatal open_stop_def stop_of_def)

lemma replicate_16: "replicate 16 a = [a, a, a, a, a, a, a, a, a, a, a, a, a, a, a, a]"
  by (simp add: numeral_eq_Suc)

lemma fill_16:
  "[a, a, a, a, a, a, a, a, a, a, a, a, a, a, a, a]
     [0 := b, 1 := b, 2 := b, 3 := b, 4 := b, 5 := b, 6 := b, 7 := b, 8 := b, 9 := b,
      10 := b, 11 := b, 12 := b, 13 := b, 14 := b, 15 := b]
   = [b, b, b, b, b, b, b, b, b, b, b, b, b, b, b, b]"
  by (simp add: numeral_eq_Suc)

lemma ucast_3: "(ucast (3 :: u64) :: i32) = 3"
  by simp

lemma sixteen_opens:
  "trace_loop cfg (replicate 16 (open_stop ''/dev/urandom'' 3)) initial_tracer =
     (replicate 16 \<lparr>resumed = syscall_regs SYS_open 8192 0 0, written = None,
           returned = (syscall_regs SYS_open 8192 0 0)\<lparr>rax := 3\<rparr>\<rparr>, Inr full_tracer)"
  by (simp add: replicate_16 open_urandom_iteration_any ucast_3
      initial_tracer_def countof_monitor_fd_def full_tracer_def fill_16)

theorem monitored_set_bounded_witness:
  "trace_loop zero_key_config (replicate 16 (open_stop ''/dev/urandom'' 3)) initial_tracer
     = (replicate 16 \<lparr>resumed = syscall_regs SYS_open 8192 0 0, written = None,
           returned = (syscall_regs SYS_open 8192 0 0)\<lparr>rax := 3\<rparr>\<rparr>, Inr full_tracer)
   \<and> nmonitor full_tracer = 16 \<and> length (monitored full_tracer) \<le> 16
   \<and> entropy_open (open_stop ''/dev/urandom'' 3)
   \<and> \<not> fails (open_stop ''/dev/urandom'' 3) Resume_entry
   \<and> \<not> fails (open_stop ''/dev/urandom'' 3) Wait_entry
   \<and> \<not> fails (open_stop ''/dev/urandom'' 3) Getregs_entry
   \<and> \<not> fails (open_stop ''/dev/urandom'' 3) Readv_path
   \<and> iteration zero_key_config (open_stop ''/dev/urandom'' 3) full_tracer = Inl Too_many_fds"
proof -
  have f: "\<And>c. \<not> fails (open_stop ''/dev/urandom'' 3) c"
    by (simp add: open_stop_def stop_of_def)
  have n: "nmonitor full_tracer = 16" by (simp add: full_tracer_def)
  from monitored_set_bounded [of zero_key_config "replicate 16 (open_stop ''/dev/urandom'' 3)"
      "replicate 16 \<lparr>resumed = syscall_regs SYS_open 8192 0 0, written = None,
           returned = (syscall_regs SYS_open 8192 0 0)\<lparr>rax := 3\<rparr>\<rparr>"
      full_tracer "open_stop ''/dev/urandom'' 3"]
    sixteen_opens [of zero_key_config] f n entropy_open_urandom [of 3]
  show ?thesis by simp
qed

section \<open>What the exit stop stores after an open\<close>

lemma i32_minus_13: "(18446744073709551603 :: i32) = - 13"
  by (simp add: word_eq_iff_unsigned [where ?'a = nat])

text \<open>
  C6 fails on the code. An \<open>open\<close> of \<open>/dev/urandom\<close> to which the kernel answers
  \<open>-13\<close> (\<open>-EACCES\<close>) leaves \<open>-13\<close> in the monitored array: the exit stop stores the
  return-value register without looking at its sign.
\<close>

theorem failed_open_is_monitored:
  "iteration zero_key_config (open_stop ''/dev/urandom'' (- 13)) initial_tracer =
     Inr (one_monitored (- 13),
          \<lparr>resumed = syscall_regs SYS_open 8192 0 0, written = None,
           returned = (syscall_regs SYS_open 8192 0 0)\<lparr>rax := - 13\<rparr>\<rparr>)
   \<and> monitored (one_monitored (- 13)) = [- 13]
   \<and> sint (- 13 :: i32) = - 13"
  using open_urandom_iteration [of zero_key_config "- 13"]
  by (simp add: i32_minus_13 monitored_one_monitored)

section \<open>Which reads are intercepted\<close>

lemma swap_remove:
  assumes d: "distinct (take n fds)" and i: "i < n" and n: "n \<le> length fds"
  shows "distinct (take (n - 1) (fds[i := fds ! (n - 1)]))
         \<and> set (take (n - 1) (fds[i := fds ! (n - 1)])) = set (take n fds) - {fds ! i}"
proof -
  define ys where "ys = take (n - 1) fds"
  define l where "l = fds ! (n - 1)"
  from i n have "take (Suc (n - 1)) fds = take (n - 1) fds @ [fds ! (n - 1)]"
    by (intro take_Suc_conv_app_nth) simp
  with i have xs: "take n fds = ys @ [l]" by (simp add: ys_def l_def)
  from i n have len: "length ys = n - 1" by (simp add: ys_def)
  from d xs have dy: "distinct ys" and ly: "l \<notin> set ys" by simp_all
  have upd: "take (n - 1) (fds[i := l]) = ys[i := l]"
    by (simp add: ys_def take_update_swap)
  have goal: "distinct (ys[i := l]) \<and> set (ys[i := l]) = set (ys @ [l]) - {fds ! i}"
  proof (cases "i = n - 1")
    case True
    with len have "length ys \<le> i" by simp
    then have u: "ys[i := l] = ys" by (rule list_update_beyond)
    from True have f: "fds ! i = l" by (simp add: l_def)
    from dy ly show ?thesis unfolding u f by auto
  next
    case False
    with i len have il: "i < length ys" by simp
    then have yi: "ys ! i = fds ! i" by (simp add: ys_def)
    from dy il have s: "set (ys[i := l]) = insert l (set ys - {ys ! i})"
      by (rule set_update_distinct)
    from dy ly have dd: "distinct (ys[i := l])" by (simp add: distinct_list_update)
    from il ly have "ys ! i \<noteq> l" by (metis nth_mem)
    with dd show ?thesis unfolding s yi [symmetric] by auto
  qed
  then show ?thesis unfolding xs l_def [symmetric] upd .
qed



lemma classify_close:
  assumes c: "classify e regs s = Inr (c, s1)" and inv: "tracer_inv s"
    and d: "distinct (monitored s)" and nr: "orig_rax regs = SYS_close"
  shows "distinct (monitored s1)
         \<and> set (monitored s1) = set (monitored s) - {ucast (rdi regs)}
         \<and> tracer_inv s1 \<and> \<not> capture_fd c \<and> size_req c = 0"
proof (cases "find_monitor (monitor_fd s) (nmonitor s) (ucast (rdi regs)) 0")
  case None
  with c nr have "s1 = s" "c = no_action" by (simp_all add: classify_def SYS_defs)
  moreover from inv None have "ucast (rdi regs) \<notin> set (monitored s)"
    using find_monitor_monitored [of s "ucast (rdi regs)"] by (simp add: tracer_inv_def)
  ultimately show ?thesis using d inv by (simp add: no_action_def)
next
  case (Some i)
  with c nr have s1: "s1 = s\<lparr>nmonitor := nmonitor s - 1,
      monitor_fd := (monitor_fd s)[i := monitor_fd s ! (nmonitor s - 1)]\<rparr>"
    and c': "c = no_action" by (auto simp add: classify_def SYS_defs)
  from find_monitor_Some [OF Some] have i: "i < nmonitor s" and fi: "monitor_fd s ! i = ucast (rdi regs)"
    by simp_all
  from inv have n: "nmonitor s \<le> length (monitor_fd s)" by (simp add: tracer_inv_def)
  from d have "distinct (take (nmonitor s) (monitor_fd s))" by (simp add: monitored_def)
  note sr = swap_remove [OF this i n]
  have m1: "monitored s1 =
      take (nmonitor s - 1) ((monitor_fd s)[i := monitor_fd s ! (nmonitor s - 1)])"
    by (simp add: s1 monitored_def)
  from inv have "nmonitor s - 1 \<le> countof_monitor_fd"
    unfolding tracer_inv_def by linarith
  with inv have t: "tracer_inv s1" by (simp add: s1 tracer_inv_def)
  have m0: "monitored s = take (nmonitor s) (monitor_fd s)" by (simp add: monitored_def)
  from sr have "distinct (monitored s1)
         \<and> set (monitored s1) = set (monitored s) - {ucast (rdi regs)}"
    unfolding m1 m0 fi .
  with t c' show ?thesis by (simp add: no_action_def)
qed

lemma classify_not_close:
  assumes "classify e regs s = Inr (c, s1)" and "orig_rax regs \<noteq> SYS_close"
  shows "s1 = s"
  using assms
  by (auto simp: classify_def ptrace_call_def Let_def split: if_splits option.splits)

lemma classify_capture:
  assumes "classify e regs s = Inr (c, s1)"
  shows "capture_fd c \<longleftrightarrow>
           orig_rax regs = SYS_open \<and> is_entropy_path (read_path e (rdi regs))"
    and "capture_fd c \<longrightarrow> size_req c = 0 \<and> nmonitor s1 \<noteq> countof_monitor_fd"
  using assms
  by (auto simp: classify_def ptrace_call_def no_action_def SYS_defs Let_def
      split: if_splits option.splits)

lemma disarm_monitored:
  assumes "disarm e regs c s = Inr r"
  shows "monitored (tracer_state r) = monitored s \<and> cls r = c
         \<and> nmonitor (tracer_state r) = nmonitor s \<and> monitor_fd (tracer_state r) = monitor_fd s
         \<and> (size_req c = 0 \<longrightarrow> child_regs r = regs)"
  using assms
  by (auto simp: disarm_def ptrace_call_def monitored_def Let_def split: if_splits)

lemma exit_stop_monitored:
  assumes x: "exit_stop cfg e r = Inr (s', fx)"
    and n: "capture_fd (cls r) \<longrightarrow> nmonitor (tracer_state r) < length (monitor_fd (tracer_state r))"
    and z: "capture_fd (cls r) \<longrightarrow> size_req (cls r) = 0"
  shows "monitored s' =
           (if capture_fd (cls r)
            then monitored (tracer_state r) @ [ucast (rax (kernel e (child_regs r)))]
            else monitored (tracer_state r))"
  using assms
  by (auto simp: exit_stop_def substitute_def capture_def forge_pid_def ptrace_call_def
      monitored_def Let_def take_Suc_conv_app_nth split: if_splits)

lemma iteration_tracks:
  assumes it: "iteration cfg e s = Inr (s', fx)" and inv: "tracer_inv s"
    and d: "distinct (monitored s)"
    and fresh: "entropy_open e \<longrightarrow> returned_fd e \<notin> set (monitored s)"
  shows "distinct (monitored s') \<and> set (monitored s') = spec_M_step (set (monitored s)) e"
proof -
  from it obtain r where en: "entry_stop e s = Inr r" and ex: "exit_stop cfg e r = Inr (s', fx)"
    by (auto simp: iteration_def split: sum.splits)
  from en obtain c s1 where cl: "classify e (entry_regs e) s = Inr (c, s1)"
    and di: "disarm e (entry_regs e) c s1 = Inr r"
    by (auto simp: entry_stop_def ptrace_call_def split: if_splits sum.splits)
  note dm = disarm_monitored [OF di]
  from entry_stop_inv [OF en inv] have ir: "tracer_inv (tracer_state r)"
    and cap: "capture_fd (cls r) \<longrightarrow> nmonitor (tracer_state r) < countof_monitor_fd" by simp_all
  from ir cap have n: "capture_fd (cls r) \<longrightarrow>
      nmonitor (tracer_state r) < length (monitor_fd (tracer_state r))"
    by (simp add: tracer_inv_def)
  from classify_capture [OF cl] dm
  have ce: "capture_fd (cls r) \<longleftrightarrow> entropy_open e"
    and z: "capture_fd (cls r) \<longrightarrow> size_req (cls r) = 0"
    by (simp_all add: entropy_open_def)
  note xm = exit_stop_monitored [OF ex n z]
  show ?thesis
  proof (cases "orig_rax (entry_regs e) = SYS_close")
    case True
    then have ne: "\<not> entropy_open e" by (simp add: entropy_open_def SYS_defs)
    from classify_close [OF cl inv d True] dm xm ne ce True show ?thesis
      by (simp add: spec_M_step_def)
  next
    case False
    from classify_not_close [OF cl False] have s1: "s1 = s" .
    show ?thesis
    proof (cases "entropy_open e")
      case True
      with ce z dm have "child_regs r = entry_regs e" by simp
      with xm ce True dm s1 have "monitored s' = monitored s @ [returned_fd e]"
        by (simp add: returned_fd_def)
      with d fresh True show ?thesis by (simp add: spec_M_step_def)
    next
      case ne: False
      with xm ce dm s1 have "monitored s' = monitored s" by simp
      with d ne False show ?thesis by (simp add: spec_M_step_def)
    qed
  qed
qed

lemma trace_loop_tracks:
  "trace_loop cfg es s = (fxs, Inr s') \<Longrightarrow> tracer_inv s \<Longrightarrow> distinct (monitored s)
   \<Longrightarrow> opens_fresh (set (monitored s)) es
   \<Longrightarrow> distinct (monitored s') \<and> set (monitored s') = spec_M (set (monitored s)) es"
proof (induction es arbitrary: s fxs)
  case Nil
  then show ?case by simp
next
  case (Cons e es)
  show ?case
  proof (cases "iteration cfg e s")
    case (Inl h)
    with Cons.prems(1) show ?thesis by simp
  next
    case (Inr p)
    obtain s1 fx where p: "p = (s1, fx)" by (cases p)
    obtain fxs1 r1 where t: "trace_loop cfg es s1 = (fxs1, r1)" by (cases "trace_loop cfg es s1")
    from Cons.prems(1) Inr p t have "r1 = Inr s'" by simp
    with t have run: "trace_loop cfg es s1 = (fxs1, Inr s')" by simp
    from Inr p have it: "iteration cfg e s = Inr (s1, fx)" by simp
    from Cons.prems(4) have f1: "entropy_open e \<longrightarrow> returned_fd e \<notin> set (monitored s)"
      and f2: "opens_fresh (spec_M_step (set (monitored s)) e) es"
      by (simp_all split: if_splits)
    from iteration_tracks [OF it Cons.prems(2,3) f1]
    have d1: "distinct (monitored s1)"
      and m1: "set (monitored s1) = spec_M_step (set (monitored s)) e" by simp_all
    from it Cons.prems(2) have i1: "tracer_inv s1" by (rule iteration_inv)
    from f2 m1 have "opens_fresh (set (monitored s1)) es" by simp
    from Cons.IH [OF run i1 d1 this] m1 show ?thesis by simp
  qed
qed

lemma read_iteration:
  assumes nr: "orig_rax (entry_regs e) = SYS_read" and inv: "tracer_inv s"
    and it: "iteration cfg e s = Inr (s', fx)"
  shows "(written fx \<noteq> None \<longleftrightarrow>
            rdx (entry_regs e) \<noteq> 0 \<and> ucast (rdi (entry_regs e)) \<in> set (monitored s))
         \<and> (written fx = None \<longrightarrow>
              s' = s \<and> fx = \<lparr>resumed = entry_regs e, written = None,
                              returned = kernel e (entry_regs e)\<rparr>)"
proof (cases "find_monitor (monitor_fd s) (nmonitor s) (ucast (rdi (entry_regs e))) 0")
  case None
  with inv have "ucast (rdi (entry_regs e)) \<notin> set (monitored s)"
    using find_monitor_monitored [of s "ucast (rdi (entry_regs e))"] by (simp add: tracer_inv_def)
  with it nr None show ?thesis
    by (auto simp: loop_defs SYS_defs Let_def split: if_splits)
next
  case (Some i)
  with inv have "ucast (rdi (entry_regs e)) \<in> set (monitored s)"
    using find_monitor_monitored [of s "ucast (rdi (entry_regs e))"] by (simp add: tracer_inv_def)
  with it nr Some show ?thesis
    by (auto simp: loop_defs SYS_defs Let_def split: if_splits)
qed


lemma read_pass_through:
  assumes nr: "orig_rax (entry_regs e) = SYS_read" and inv: "tracer_inv s"
    and no: "rdx (entry_regs e) = 0 \<or> ucast (rdi (entry_regs e)) \<notin> set (monitored s)"
    and ok: "\<not> fails e Resume_entry" "\<not> fails e Wait_entry" "\<not> fails e Getregs_entry"
      "\<not> fails e Resume_exit" "\<not> fails e Wait_exit"
  shows "iteration cfg e s =
           Inr (s, \<lparr>resumed = entry_regs e, written = None,
                    returned = kernel e (entry_regs e)\<rparr>)"
proof (cases "find_monitor (monitor_fd s) (nmonitor s) (ucast (rdi (entry_regs e))) 0")
  case None
  with nr ok show ?thesis
    by (simp add: loop_defs SYS_defs Let_def)
next
  case (Some i)
  with inv have "ucast (rdi (entry_regs e)) \<in> set (monitored s)"
    using find_monitor_monitored [of s "ucast (rdi (entry_regs e))"] by (simp add: tracer_inv_def)
  with no have "rdx (entry_regs e) = 0" by simp
  with nr ok Some show ?thesis
    by (simp add: loop_defs SYS_defs Let_def)
qed

lemma read_intercepted:
  assumes nr: "orig_rax (entry_regs e) = SYS_read" and inv: "tracer_inv s"
    and nz: "rdx (entry_regs e) \<noteq> 0" and mon: "ucast (rdi (entry_regs e)) \<in> set (monitored s)"
    and ok: "\<forall>c. \<not> fails e c" "\<not> malloc_fails e"
  shows "iteration cfg e s =
     Inr (filled cfg s (rdx (entry_regs e)),
          \<lparr>resumed = (entry_regs e)\<lparr>orig_rax := - 1\<rparr>,
           written = Some (rsi (entry_regs e),
             crypto_stream_chacha20 (min (unat (rdx (entry_regs e))) (writev_limit e)) nonce (key cfg)),
           returned = (kernel e ((entry_regs e)\<lparr>orig_rax := - 1\<rparr>))\<lparr>rax := rdx (entry_regs e)\<rparr>\<rparr>)"
proof -
  from nr mon have "entropy_request s (entry_regs e) (rsi (entry_regs e)) (rdx (entry_regs e))"
    by (simp add: entropy_request_def)
  from entropy_iteration_result [OF inv this nz ok] show ?thesis .
qed

lemma trace_loop_monitored:
  assumes "trace_loop cfg es initial_tracer = (fxs, Inr s)" and "opens_fresh {} es"
  shows "set (monitored s) = spec_M {} es"
proof -
  have m0: "monitored initial_tracer = []" by (simp add: monitored_def initial_tracer_def)
  from assms(2) m0 have "opens_fresh (set (monitored initial_tracer)) es" by simp
  from trace_loop_tracks [OF assms(1) tracer_inv_initial _ this] m0
  show ?thesis by simp
qed

text \<open>
  C5, amended. In a pass through the loop whose two stops are the entry stop and the exit
  stop of a \<open>read\<close>, in any state the loop reaches: the \<open>read\<close> is intercepted exactly
  if its byte count is not 0 and its descriptor (the low 32 bits of \<open>rdi\<close>) is
  monitored; a \<open>read\<close> that is not intercepted, among them every \<open>read\<close> of 0 bytes and
  every \<open>read\<close> on another descriptor, passes through unchanged; and when no call fails
  the tracer survives the pass with just these effects. In a run where every pass is such
  a pair of stops and every observed \<open>open\<close> of an entropy device returns a value that is
  not negative and not monitored at that moment, the monitored descriptors are exactly
  those returned by an observed \<open>open\<close> of \<open>/dev/random\<close> or \<open>/dev/urandom\<close> and not
  closed since.
\<close>

theorem read_intercepted_iff_monitored:
  "(trace_loop cfg es initial_tracer = (fxs, Inr s)
      \<and> orig_rax (entry_regs e) = SYS_read \<and> paired e \<longrightarrow>
      (iteration cfg e s = Inr (s', fx) \<longrightarrow>
         (written fx \<noteq> None \<longleftrightarrow>
            rdx (entry_regs e) \<noteq> 0 \<and> ucast (rdi (entry_regs e)) \<in> set (monitored s))
         \<and> (written fx = None \<longrightarrow>
              s' = s \<and> fx = \<lparr>resumed = entry_regs e, written = None,
                              returned = kernel e (entry_regs e)\<rparr>))
      \<and> ((\<forall>c. \<not> fails e c) \<and> \<not> malloc_fails e \<longrightarrow>
           iteration cfg e s =
             (if rdx (entry_regs e) \<noteq> 0 \<and> ucast (rdi (entry_regs e)) \<in> set (monitored s)
              then Inr (filled cfg s (rdx (entry_regs e)),
                     \<lparr>resumed = (entry_regs e)\<lparr>orig_rax := - 1\<rparr>,
                      written = Some (rsi (entry_regs e),
                        crypto_stream_chacha20 (min (unat (rdx (entry_regs e))) (writev_limit e))
                          nonce (key cfg)),
                      returned = (kernel e ((entry_regs e)\<lparr>orig_rax := - 1\<rparr>))
                                   \<lparr>rax := rdx (entry_regs e)\<rparr>\<rparr>)
              else Inr (s, \<lparr>resumed = entry_regs e, written = None,
                            returned = kernel e (entry_regs e)\<rparr>))))
   \<and> (trace_loop cfg es initial_tracer = (fxs, Inr s) \<and> list_all paired es \<and> opens_fresh {} es
        \<longrightarrow> set (monitored s) = spec_M {} es)"
proof (intro conjI impI)
  assume a: "trace_loop cfg es initial_tracer = (fxs, Inr s)
      \<and> orig_rax (entry_regs e) = SYS_read \<and> paired e"
  then have run: "trace_loop cfg es initial_tracer = (fxs, Inr s)"
    and nr: "orig_rax (entry_regs e) = SYS_read" by simp_all
  from run tracer_inv_initial have inv: "tracer_inv s" by (rule trace_loop_inv)
  {
    assume it: "iteration cfg e s = Inr (s', fx)"
    from read_iteration [OF nr inv it]
    show "(written fx \<noteq> None) =
            (rdx (entry_regs e) \<noteq> 0 \<and> ucast (rdi (entry_regs e)) \<in> set (monitored s))"
      by blast
    assume "written fx = None"
    with read_iteration [OF nr inv it]
    show "s' = s" and "fx = \<lparr>resumed = entry_regs e, written = None,
                              returned = kernel e (entry_regs e)\<rparr>"
      by blast+
  }
  {
    assume ok: "(\<forall>c. \<not> fails e c) \<and> \<not> malloc_fails e"
    show "iteration cfg e s =
             (if rdx (entry_regs e) \<noteq> 0 \<and> ucast (rdi (entry_regs e)) \<in> set (monitored s)
              then Inr (filled cfg s (rdx (entry_regs e)),
                     \<lparr>resumed = (entry_regs e)\<lparr>orig_rax := - 1\<rparr>,
                      written = Some (rsi (entry_regs e),
                        crypto_stream_chacha20 (min (unat (rdx (entry_regs e))) (writev_limit e))
                          nonce (key cfg)),
                      returned = (kernel e ((entry_regs e)\<lparr>orig_rax := - 1\<rparr>))
                                   \<lparr>rax := rdx (entry_regs e)\<rparr>\<rparr>)
              else Inr (s, \<lparr>resumed = entry_regs e, written = None,
                            returned = kernel e (entry_regs e)\<rparr>))"
    proof (cases "rdx (entry_regs e) \<noteq> 0 \<and> ucast (rdi (entry_regs e)) \<in> set (monitored s)")
      case True
      with read_intercepted [OF nr inv, of cfg] ok show ?thesis by simp
    next
      case False
      then have "rdx (entry_regs e) = 0 \<or> ucast (rdi (entry_regs e)) \<notin> set (monitored s)"
        by blast
      from read_pass_through [OF nr inv this, of cfg] ok False show ?thesis by simp
    qed
  }
next
  assume "trace_loop cfg es initial_tracer = (fxs, Inr s) \<and> list_all paired es \<and> opens_fresh {} es"
  then show "set (monitored s) = spec_M {} es"
    using trace_loop_monitored by blast
qed

lemma find_monitor_one_monitored:
  "find_monitor (monitor_fd (one_monitored fd)) (nmonitor (one_monitored fd)) fd 0 = Some 0"
proof -
  have "monitor_fd (one_monitored fd) ! 0 = fd"
    by (simp add: one_monitored_def initial_tracer_def countof_monitor_fd_def)
  moreover have "nmonitor (one_monitored fd) = 1" by (simp add: one_monitored_def)
  ultimately show ?thesis
    by (simp add: find_monitor.simps [of _ _ fd 0])
qed

lemma read_monitored_iteration:
  "iteration cfg (read_stop 3 4096 4 4) (one_monitored 3) =
     Inr ((one_monitored 3)\<lparr>buflen := 4, buf := crypto_stream_chacha20 4 nonce (key cfg)\<rparr>,
          \<lparr>resumed = syscall_regs (- 1) 3 4096 4,
           written = Some (4096, crypto_stream_chacha20 4 nonce (key cfg)),
           returned = (syscall_regs (- 1) 3 4096 4)\<lparr>rax := 4\<rparr>\<rparr>)"
proof -
  have b: "buflen (one_monitored 3) = 0" "buf (one_monitored 3) = []"
    by (simp_all add: one_monitored_def initial_tracer_def)
  show ?thesis
    by (simp add: loop_defs read_stop_def stop_of_def syscall_regs_def native_kernel_def
        SYS_defs Let_def find_monitor_one_monitored [of 3, simplified] b)
qed

lemma read_zero_iteration:
  "iteration cfg (read_stop 3 4096 0 0) (one_monitored 3) =
     Inr (one_monitored 3,
          \<lparr>resumed = syscall_regs SYS_read 3 4096 0, written = None,
           returned = (syscall_regs SYS_read 3 4096 0)\<lparr>rax := 0\<rparr>\<rparr>)"
  by (simp add: loop_defs read_stop_def stop_of_def syscall_regs_def native_kernel_def
      SYS_defs Let_def split: option.splits)

lemma open_urandom_run:
  "trace_loop cfg [open_stop ''/dev/urandom'' 3] initial_tracer
     = ([\<lparr>resumed = syscall_regs SYS_open 8192 0 0, written = None,
           returned = (syscall_regs SYS_open 8192 0 0)\<lparr>rax := 3\<rparr>\<rparr>], Inr (one_monitored 3))"
  by (simp add: open_urandom_iteration)

text \<open>
  C5 as stated fails: after \<open>open("/dev/urandom")\<close> has returned 3, a \<open>read\<close> of 0
  bytes on descriptor 3 is on a monitored descriptor and is not intercepted.
\<close>

theorem zero_length_read_not_intercepted:
  "trace_loop zero_key_config [open_stop ''/dev/urandom'' 3, read_stop 3 4096 0 0] initial_tracer
     = ([\<lparr>resumed = syscall_regs SYS_open 8192 0 0, written = None,
           returned = (syscall_regs SYS_open 8192 0 0)\<lparr>rax := 3\<rparr>\<rparr>,
         \<lparr>resumed = syscall_regs SYS_read 3 4096 0, written = None,
           returned = (syscall_regs SYS_read 3 4096 0)\<lparr>rax := 0\<rparr>\<rparr>],
        Inr (one_monitored 3))
   \<and> \<not> (written \<lparr>resumed = syscall_regs SYS_read 3 4096 0, written = None,
                   returned = (syscall_regs SYS_read 3 4096 0)\<lparr>rax := 0\<rparr>\<rparr> \<noteq> None
          \<longleftrightarrow> ucast (rdi (entry_regs (read_stop 3 4096 0 0))) \<in> set (monitored (one_monitored 3)))"
proof -
  have "ucast (rdi (entry_regs (read_stop 3 4096 0 0))) \<in> set (monitored (one_monitored 3))"
    by (simp add: monitored_one_monitored read_stop_def stop_of_def syscall_regs_def)
  then show ?thesis
    by (simp add: open_urandom_iteration read_zero_iteration)
qed

lemma read_stop_facts:
  "orig_rax (entry_regs (read_stop fd p n ret)) = SYS_read"
  "paired (read_stop fd p n ret)"
  "\<not> fails (read_stop fd p n ret) c"
  "\<not> malloc_fails (read_stop fd p n ret)"
  "entry_regs (read_stop fd p n ret) = syscall_regs SYS_read fd p n"
  "writev_limit (read_stop fd p n ret) = 2147479552"
  by (simp_all add: read_stop_def stop_of_def syscall_regs_def paired_def)

lemma filled_one_monitored:
  "filled cfg (one_monitored 3) 4
     = (one_monitored 3)\<lparr>buflen := 4, buf := crypto_stream_chacha20 4 nonce (key cfg)\<rparr>"
  by (simp add: filled_def one_monitored_def initial_tracer_def)

theorem read_intercepted_iff_monitored_witness:
  "trace_loop zero_key_config [open_stop ''/dev/urandom'' 3] initial_tracer
     = ([\<lparr>resumed = syscall_regs SYS_open 8192 0 0, written = None,
           returned = (syscall_regs SYS_open 8192 0 0)\<lparr>rax := 3\<rparr>\<rparr>], Inr (one_monitored 3))
   \<and> list_all paired [open_stop ''/dev/urandom'' 3]
   \<and> opens_fresh {} [open_stop ''/dev/urandom'' 3]
   \<and> orig_rax (entry_regs (read_stop 3 4096 4 4)) = SYS_read
   \<and> paired (read_stop 3 4096 4 4)
   \<and> (\<forall>c. \<not> fails (read_stop 3 4096 4 4) c) \<and> \<not> malloc_fails (read_stop 3 4096 4 4)
   \<and> iteration zero_key_config (read_stop 3 4096 4 4) (one_monitored 3) =
     Inr ((one_monitored 3)\<lparr>buflen := 4,
            buf := crypto_stream_chacha20 4 nonce (key zero_key_config)\<rparr>,
          \<lparr>resumed = syscall_regs (- 1) 3 4096 4,
           written = Some (4096, crypto_stream_chacha20 4 nonce (key zero_key_config)),
           returned = (syscall_regs (- 1) 3 4096 4)\<lparr>rax := 4\<rparr>\<rparr>)
   \<and> rdx (entry_regs (read_stop 3 4096 4 4)) \<noteq> 0
   \<and> ucast (rdi (entry_regs (read_stop 3 4096 4 4))) \<in> set (monitored (one_monitored 3))
   \<and> orig_rax (entry_regs (read_stop 5 4096 4 4)) = SYS_read
   \<and> paired (read_stop 5 4096 4 4)
   \<and> (\<forall>c. \<not> fails (read_stop 5 4096 4 4) c) \<and> \<not> malloc_fails (read_stop 5 4096 4 4)
   \<and> ucast (rdi (entry_regs (read_stop 5 4096 4 4))) \<notin> set (monitored (one_monitored 3))
   \<and> iteration zero_key_config (read_stop 5 4096 4 4) (one_monitored 3) =
     Inr (one_monitored 3,
          \<lparr>resumed = syscall_regs SYS_read 5 4096 4, written = None,
           returned = (syscall_regs SYS_read 5 4096 4)\<lparr>rax := 4\<rparr>\<rparr>)
   \<and> set (monitored (one_monitored 3)) = spec_M {} [open_stop ''/dev/urandom'' 3]
   \<and> spec_M {} [open_stop ''/dev/urandom'' 3] = {3}"
proof -
  have p: "list_all paired [open_stop ''/dev/urandom'' 3]" by (simp add: open_stop_facts(4))
  have f: "opens_fresh {} [open_stop ''/dev/urandom'' 3]"
    by (simp add: entropy_open_urandom returned_fd_open_stop)
  have sp: "spec_M {} [open_stop ''/dev/urandom'' 3] = {3}"
    by (simp add: spec_M_step_def entropy_open_urandom returned_fd_open_stop)
  note n3 = read_stop_facts(1) [of 3 4096 4 4] and p3 = read_stop_facts(2) [of 3 4096 4 4]
  note n5 = read_stop_facts(1) [of 5 4096 4 4] and p5 = read_stop_facts(2) [of 5 4096 4 4]
  have ok3: "(\<forall>c. \<not> fails (read_stop 3 4096 4 4) c) \<and> \<not> malloc_fails (read_stop 3 4096 4 4)"
    by (simp add: read_stop_facts)
  have ok5: "(\<forall>c. \<not> fails (read_stop 5 4096 4 4) c) \<and> \<not> malloc_fails (read_stop 5 4096 4 4)"
    by (simp add: read_stop_facts)
  have x3: "rdx (entry_regs (read_stop 3 4096 4 4)) \<noteq> 0"
    by (simp add: read_stop_facts syscall_regs_def)
  have m3: "ucast (rdi (entry_regs (read_stop 3 4096 4 4))) \<in> set (monitored (one_monitored 3))"
    by (simp add: read_stop_facts syscall_regs_def monitored_one_monitored)
  have m5: "ucast (rdi (entry_regs (read_stop 5 4096 4 4))) \<notin> set (monitored (one_monitored 3))"
    by (simp add: read_stop_facts syscall_regs_def monitored_one_monitored)
  note t3 = read_intercepted_iff_monitored [of zero_key_config "[open_stop ''/dev/urandom'' 3]"
      "[\<lparr>resumed = syscall_regs SYS_open 8192 0 0, written = None,
           returned = (syscall_regs SYS_open 8192 0 0)\<lparr>rax := 3\<rparr>\<rparr>]" "one_monitored 3"
      "read_stop 3 4096 4 4" "one_monitored 3" undefined]
  note t5 = read_intercepted_iff_monitored [of zero_key_config "[open_stop ''/dev/urandom'' 3]"
      "[\<lparr>resumed = syscall_regs SYS_open 8192 0 0, written = None,
           returned = (syscall_regs SYS_open 8192 0 0)\<lparr>rax := 3\<rparr>\<rparr>]" "one_monitored 3"
      "read_stop 5 4096 4 4" "one_monitored 3" undefined]
  note run = open_urandom_run [of zero_key_config]
  from t3 run p f have m: "set (monitored (one_monitored 3)) = spec_M {} [open_stop ''/dev/urandom'' 3]"
    by blast
  from t3 run n3 p3 ok3
  have "iteration zero_key_config (read_stop 3 4096 4 4) (one_monitored 3) =
      (if rdx (entry_regs (read_stop 3 4096 4 4)) \<noteq> 0
          \<and> ucast (rdi (entry_regs (read_stop 3 4096 4 4))) \<in> set (monitored (one_monitored 3))
       then Inr (filled zero_key_config (one_monitored 3) (rdx (entry_regs (read_stop 3 4096 4 4))),
              \<lparr>resumed = (entry_regs (read_stop 3 4096 4 4))\<lparr>orig_rax := - 1\<rparr>,
               written = Some (rsi (entry_regs (read_stop 3 4096 4 4)),
                 crypto_stream_chacha20 (min (unat (rdx (entry_regs (read_stop 3 4096 4 4))))
                     (writev_limit (read_stop 3 4096 4 4)))
                   nonce (key zero_key_config)),
               returned = (kernel (read_stop 3 4096 4 4)
                    ((entry_regs (read_stop 3 4096 4 4))\<lparr>orig_rax := - 1\<rparr>))
                            \<lparr>rax := rdx (entry_regs (read_stop 3 4096 4 4))\<rparr>\<rparr>)
       else Inr (one_monitored 3, \<lparr>resumed = entry_regs (read_stop 3 4096 4 4), written = None,
                     returned = kernel (read_stop 3 4096 4 4) (entry_regs (read_stop 3 4096 4 4))\<rparr>))"
    by blast
  with x3 m3
  have i3: "iteration zero_key_config (read_stop 3 4096 4 4) (one_monitored 3) =
     Inr ((one_monitored 3)\<lparr>buflen := 4,
            buf := crypto_stream_chacha20 4 nonce (key zero_key_config)\<rparr>,
          \<lparr>resumed = syscall_regs (- 1) 3 4096 4,
           written = Some (4096, crypto_stream_chacha20 4 nonce (key zero_key_config)),
           returned = (syscall_regs (- 1) 3 4096 4)\<lparr>rax := 4\<rparr>\<rparr>)"
    by (simp add: read_stop_facts(5,6))
      (simp add: syscall_regs_def filled_one_monitored read_stop_def stop_of_def native_kernel_def)
  from t5 run n5 p5 ok5
  have "iteration zero_key_config (read_stop 5 4096 4 4) (one_monitored 3) =
      (if rdx (entry_regs (read_stop 5 4096 4 4)) \<noteq> 0
          \<and> ucast (rdi (entry_regs (read_stop 5 4096 4 4))) \<in> set (monitored (one_monitored 3))
       then Inr (filled zero_key_config (one_monitored 3) (rdx (entry_regs (read_stop 5 4096 4 4))),
              \<lparr>resumed = (entry_regs (read_stop 5 4096 4 4))\<lparr>orig_rax := - 1\<rparr>,
               written = Some (rsi (entry_regs (read_stop 5 4096 4 4)),
                 crypto_stream_chacha20 (min (unat (rdx (entry_regs (read_stop 5 4096 4 4))))
                     (writev_limit (read_stop 5 4096 4 4)))
                   nonce (key zero_key_config)),
               returned = (kernel (read_stop 5 4096 4 4)
                    ((entry_regs (read_stop 5 4096 4 4))\<lparr>orig_rax := - 1\<rparr>))
                            \<lparr>rax := rdx (entry_regs (read_stop 5 4096 4 4))\<rparr>\<rparr>)
       else Inr (one_monitored 3, \<lparr>resumed = entry_regs (read_stop 5 4096 4 4), written = None,
                     returned = kernel (read_stop 5 4096 4 4) (entry_regs (read_stop 5 4096 4 4))\<rparr>))"
    by blast
  with m5
  have i5: "iteration zero_key_config (read_stop 5 4096 4 4) (one_monitored 3) =
     Inr (one_monitored 3,
          \<lparr>resumed = syscall_regs SYS_read 5 4096 4, written = None,
           returned = (syscall_regs SYS_read 5 4096 4)\<lparr>rax := 4\<rparr>\<rparr>)"
    by (simp add: read_stop_facts(5))
      (simp add: syscall_regs_def read_stop_def stop_of_def native_kernel_def SYS_defs)
  from run p f n3 p3 ok3 i3 x3 m3 n5 p5 ok5 m5 i5 m sp show ?thesis by blast
qed

text \<open>
  Why the amended C5 speaks only of passes whose stops are the entry and the exit of one
  syscall: after a signal-delivery stop the entry stop of a \<open>read(3, 4096, 64)\<close> on the
  monitored descriptor 3 is the second stop of a pass, and the \<open>read\<close> enters the kernel
  under its own number.
\<close>

lemma monitored_read_enters_kernel_after_signal:
  "kernel_entries zero_key_config
     [signal_stop (syscall_regs SYS_read 3 4096 64),
      shifted_stop \<lparr>orig_rax = SYS_read, rax = 64, rdi = 3, rsi = 4096, rdx = 64\<rparr>
        (syscall_regs SYS_getpid 0 0 0)]
     (one_monitored 3) =
     [(one_monitored 3, syscall_regs SYS_read 3 4096 64, syscall_regs SYS_read 3 4096 64)]
   \<and> undisarmed
        (one_monitored 3, syscall_regs SYS_read 3 4096 64, syscall_regs SYS_read 3 4096 64)"
proof -
  have q: "entropy_request (one_monitored 3)
      (entry_regs (shifted_stop \<lparr>orig_rax = SYS_read, rax = 64, rdi = 3, rsi = 4096, rdx = 64\<rparr>
        (syscall_regs SYS_getpid 0 0 0))) 4096 64"
    by (simp add: shifted_stop_def entropy_request_def monitored_one_monitored)
  have n: "(64 :: u64) \<noteq> 0" by simp
  have f: "\<forall>c. \<not> fails (shifted_stop \<lparr>orig_rax = SYS_read, rax = 64, rdi = 3, rsi = 4096, rdx = 64\<rparr>
        (syscall_regs SYS_getpid 0 0 0)) c"
    "\<not> malloc_fails (shifted_stop \<lparr>orig_rax = SYS_read, rax = 64, rdi = 3, rsi = 4096, rdx = 64\<rparr>
        (syscall_regs SYS_getpid 0 0 0))"
    by (simp_all add: shifted_stop_def)
  note it2 = entropy_iteration_result [OF tracer_inv_one_monitored q n f, of zero_key_config]
  have e1: "entry_at_first (signal_stop (syscall_regs SYS_read 3 4096 64)) (one_monitored 3) = []"
    by (simp add: entry_at_first_def signal_stop_def split: sum.splits)
  have e2: "entry_at_first (shifted_stop \<lparr>orig_rax = SYS_read, rax = 64, rdi = 3, rsi = 4096, rdx = 64\<rparr>
        (syscall_regs SYS_getpid 0 0 0)) (one_monitored 3) = []"
    by (simp add: entry_at_first_def shifted_stop_def split: sum.splits)
  have k: "kernel_entries zero_key_config
     [signal_stop (syscall_regs SYS_read 3 4096 64),
      shifted_stop \<lparr>orig_rax = SYS_read, rax = 64, rdi = 3, rsi = 4096, rdx = 64\<rparr>
        (syscall_regs SYS_getpid 0 0 0)]
     (one_monitored 3) =
     [(one_monitored 3, syscall_regs SYS_read 3 4096 64, syscall_regs SYS_read 3 4096 64)]"
    by (simp add: e1 e2 signal_iteration it2 entry_at_second_def)
      (simp add: signal_stop_def shifted_stop_def)
  have u: "undisarmed
        (one_monitored 3, syscall_regs SYS_read 3 4096 64, syscall_regs SYS_read 3 4096 64)"
    by (simp add: undisarmed_def syscall_regs_def monitored_one_monitored)
  from k u show ?thesis by blast
qed

text \<open>
  Why the amended C5 speaks only of runs whose opens return fresh values: the array may
  hold a value twice (here 3 is returned twice, as after a close the tracer does not see),
  and \<open>close\<close> removes one entry only, so 3 stays monitored after its close.
\<close>

lemma close_iteration:
  "iteration cfg (close_stop fd) s =
     Inr (case find_monitor (monitor_fd s) (nmonitor s) (ucast fd) 0 of
            Some i \<Rightarrow> s\<lparr>nmonitor := nmonitor s - 1,
                        monitor_fd := (monitor_fd s)[i := monitor_fd s ! (nmonitor s - 1)]\<rparr>
          | None \<Rightarrow> s,
          \<lparr>resumed = syscall_regs SYS_close fd 0 0, written = None,
           returned = (syscall_regs SYS_close fd 0 0)\<lparr>rax := 0\<rparr>\<rparr>)"
  by (simp add: loop_defs close_stop_def stop_of_def syscall_regs_def native_kernel_def SYS_defs
      Let_def split: option.splits)

lemma repeated_fd_outlives_close:
  "trace_loop cfg [open_stop ''/dev/urandom'' 3, open_stop ''/dev/urandom'' 3, close_stop 3]
       initial_tracer =
     ([\<lparr>resumed = syscall_regs SYS_open 8192 0 0, written = None,
         returned = (syscall_regs SYS_open 8192 0 0)\<lparr>rax := 3\<rparr>\<rparr>,
       \<lparr>resumed = syscall_regs SYS_open 8192 0 0, written = None,
         returned = (syscall_regs SYS_open 8192 0 0)\<lparr>rax := 3\<rparr>\<rparr>,
       \<lparr>resumed = syscall_regs SYS_close 3 0 0, written = None,
         returned = (syscall_regs SYS_close 3 0 0)\<lparr>rax := 0\<rparr>\<rparr>],
      Inr (initial_tracer\<lparr>monitor_fd := (monitor_fd initial_tracer)[0 := 3, 1 := 3, 0 := 3],
                          nmonitor := 1\<rparr>))
   \<and> monitored (initial_tracer\<lparr>monitor_fd := (monitor_fd initial_tracer)[0 := 3, 1 := 3, 0 := 3],
                                 nmonitor := 1\<rparr>) = [3]
   \<and> spec_M {} [open_stop ''/dev/urandom'' 3, open_stop ''/dev/urandom'' 3, close_stop 3] = {}"
proof -
  have c: "\<not> entropy_open (close_stop 3)" "orig_rax (entry_regs (close_stop 3)) = SYS_close"
    "rdi (entry_regs (close_stop 3)) = 3"
    by (simp_all add: entropy_open_def close_stop_def stop_of_def syscall_regs_def SYS_defs)
  have sp: "spec_M {} [open_stop ''/dev/urandom'' 3, open_stop ''/dev/urandom'' 3, close_stop 3] = {}"
    by (simp add: spec_M_step_def entropy_open_urandom returned_fd_open_stop c)
  have f: "find_monitor ((replicate 16 0)[0 := 3, Suc 0 := 3]) (Suc (Suc 0)) (3 :: i32) 0 = Some 0"
    by (simp add: find_monitor.simps [of _ _ _ 0] numeral_eq_Suc)
  have run: "trace_loop cfg [open_stop ''/dev/urandom'' 3, open_stop ''/dev/urandom'' 3, close_stop 3]
       initial_tracer =
     ([\<lparr>resumed = syscall_regs SYS_open 8192 0 0, written = None,
         returned = (syscall_regs SYS_open 8192 0 0)\<lparr>rax := 3\<rparr>\<rparr>,
       \<lparr>resumed = syscall_regs SYS_open 8192 0 0, written = None,
         returned = (syscall_regs SYS_open 8192 0 0)\<lparr>rax := 3\<rparr>\<rparr>,
       \<lparr>resumed = syscall_regs SYS_close 3 0 0, written = None,
         returned = (syscall_regs SYS_close 3 0 0)\<lparr>rax := 0\<rparr>\<rparr>],
      Inr (initial_tracer\<lparr>monitor_fd := (monitor_fd initial_tracer)[0 := 3, 1 := 3, 0 := 3],
                          nmonitor := 1\<rparr>))"
    by (simp add: open_urandom_iteration_any close_iteration initial_tracer_def
        countof_monitor_fd_def f)
  have m: "monitored (initial_tracer\<lparr>monitor_fd := (monitor_fd initial_tracer)[0 := 3, 1 := 3, 0 := 3],
                                 nmonitor := 1\<rparr>) = [3]"
    by (simp add: monitored_def initial_tracer_def countof_monitor_fd_def numeral_eq_Suc)
  from run m sp show ?thesis by blast
qed

section \<open>The keystream under the zero key\<close>

text \<open>Block 0 of the keystream for the all-zero key and nonce, computed round by round;
  its first bytes are those of the published test vector (76 b8 e0 ad ...).\<close>

lemma chacha_input_zero:
  "chacha_input (replicate 32 0) (replicate 8 0) 0 =
     [1634760805, 857760878, 2036477234, 1797285236, 0, 0, 0, 0, 0, 0, 0, 0, 0, 0, 0, 0]"
  by (simp add: chacha_input_def chacha_keysetup_def LOAD32_LE_def byte_at_def upt_rec
      numeral_eq_Suc)

lemma double_round_zero_1:
  "double_round [1634760805, 857760878, 2036477234, 1797285236, 0, 0, 0, 0, 0, 0, 0, 0, 0, 0, 0, 0] =
     [3831485001, 465051814, 3810167018, 3865553406, 708572787, 2260680856, 1175146506, 4195784838, 1401801230, 205755969, 16389820, 2315813162, 1807715081, 3274707926, 3147798601, 2277908837]"
  by code_simp

lemma double_round_zero_2:
  "double_round [3831485001, 465051814, 3810167018, 3865553406, 708572787, 2260680856, 1175146506, 4195784838, 1401801230, 205755969, 16389820, 2315813162, 1807715081, 3274707926, 3147798601, 2277908837] =
     [2987265446, 555851331, 2043056534, 2394542343, 683648334, 243939487, 2031723700, 842999353, 1769110809, 317167340, 3515309448, 1613476332, 1612483213, 416233319, 1624313532, 397031114]"
  by code_simp

lemma double_round_zero_3:
  "double_round [2987265446, 555851331, 2043056534, 2394542343, 683648334, 243939487, 2031723700, 842999353, 1769110809, 317167340, 3515309448, 1613476332, 1612483213, 416233319, 1624313532, 397031114] =
     [42443425, 3537648111, 4075615518, 3280431870, 2457253921, 936163239, 535217241, 3858322967, 3618735395, 2694131698, 320827381, 1865984460, 1547860575, 496143739, 4107449562, 442763396]"
  by code_simp

lemma double_round_zero_4:
  "double_round [42443425, 3537648111, 4075615518, 3280431870, 2457253921, 936163239, 535217241, 3858322967, 3618735395, 2694131698, 320827381, 1865984460, 1547860575, 496143739, 4107449562, 442763396] =
     [3464398809, 2736782107, 1867918925, 914662315, 3272508460, 998218446, 2296453912, 505049583, 1927367832, 1097802169, 1733510303, 425094469, 2739030577, 28346074, 3103619896, 1123945486]"
  by code_simp

lemma double_round_zero_5:
  "double_round [3464398809, 2736782107, 1867918925, 914662315, 3272508460, 998218446, 2296453912, 505049583, 1927367832, 1097802169, 1733510303, 425094469, 2739030577, 28346074, 3103619896, 1123945486] =
     [1308838156, 2549006073, 4135762692, 793240496, 1354003995, 3934035184, 3013862787, 3854227624, 1335860601, 1156916115, 2881466214, 1593652346, 2985647285, 85002989, 1444698375, 3558679988]"
  by code_simp

lemma double_round_zero_6:
  "double_round [1308838156, 2549006073, 4135762692, 793240496, 1354003995, 3934035184, 3013862787, 3854227624, 1335860601, 1156916115, 2881466214, 1593652346, 2985647285, 85002989, 1444698375, 3558679988] =
     [153779254, 551088281, 2573988431, 1784856811, 3150129412, 343203913, 2777219198, 1595256366, 2046321669, 3236133586, 875096108, 2039282348, 748642874, 426368672, 803736417, 3190166337]"
  by code_simp

lemma double_round_zero_7:
  "double_round [153779254, 551088281, 2573988431, 1784856811, 3150129412, 343203913, 2777219198, 1595256366, 2046321669, 3236133586, 875096108, 2039282348, 748642874, 426368672, 803736417, 3190166337] =
     [1843350424, 1608384784, 3655185970, 1947739403, 3718507033, 1188705781, 838547146, 1894081315, 1188398960, 3234391270, 3125483095, 3295685470, 2940917475, 3868489986, 646047163, 674516562]"
  by code_simp

lemma double_round_zero_8:
  "double_round [1843350424, 1608384784, 3655185970, 1947739403, 3718507033, 1188705781, 838547146, 1894081315, 1188398960, 3234391270, 3125483095, 3295685470, 2940917475, 3868489986, 646047163, 674516562] =
     [4142613381, 256929999, 2185938132, 4278346116, 1910216669, 1624086861, 2910867510, 2312475086, 2656191475, 382791205, 2196319126, 3503982164, 1805033478, 1199192055, 3527735948, 2991348835]"
  by code_simp

lemma double_round_zero_9:
  "double_round [4142613381, 256929999, 2185938132, 4278346116, 1910216669, 1624086861, 2910867510, 2312475086, 2656191475, 382791205, 2196319126, 3503982164, 1805033478, 1199192055, 3527735948, 2991348835] =
     [172609723, 4252221419, 3259208404, 3775952493, 2081980761, 957320013, 170075935, 235214466, 1531487041, 140632055, 1563676091, 399783725, 3319306763, 2649833516, 2961880544, 2236122496]"
  by code_simp

lemma double_round_zero_10:
  "double_round [172609723, 4252221419, 3259208404, 3775952493, 2081980761, 957320013, 170075935, 235214466, 1531487041, 140632055, 1563676091, 399783725, 3319306763, 2649833516, 2961880544, 2236122496] =
     [1282424849, 1562217778, 1812475918, 3181191391, 3088700093, 451775904, 3438229160, 3339548555, 2086224346, 2370328401, 1071654007, 927652024, 4105716586, 480319509, 1773569987, 2254827186]"
  by code_simp

lemma rounds_zero:
  "(double_round ^^ 10) [1634760805, 857760878, 2036477234, 1797285236, 0, 0, 0, 0, 0, 0, 0, 0, 0, 0, 0, 0] =
     [1282424849, 1562217778, 1812475918, 3181191391, 3088700093, 451775904, 3438229160, 3339548555, 2086224346, 2370328401, 1071654007, 927652024, 4105716586, 480319509, 1773569987, 2254827186]"
  by (simp add: numeral_eq_Suc double_round_zero_1 double_round_zero_2 double_round_zero_3
      double_round_zero_4 double_round_zero_5 double_round_zero_6 double_round_zero_7
      double_round_zero_8 double_round_zero_9 double_round_zero_10)

lemma store_zero:
  "concat (map STORE32_LE (map2 (+) [1282424849, 1562217778, 1812475918, 3181191391, 3088700093, 451775904, 3438229160, 3339548555, 2086224346, 2370328401, 1071654007, 927652024, 4105716586, 480319509, 1773569987, 2254827186]
     [1634760805, 857760878, 2036477234, 1797285236, 0, 0, 0, 0, 0, 0, 0, 0, 0, 0, 0, 0])) =
     [118, 184, 224, 173, 160, 241, 61, 144, 64, 93, 106, 229, 83, 134, 189, 40, 189, 210, 25, 184, 160, 141, 237, 26, 168, 54, 239, 204, 139, 119, 13, 199, 218, 65, 89, 124, 81, 87, 72, 141, 119, 36, 224, 63, 184, 216, 74, 55, 106, 67, 184, 244, 21, 24, 161, 28, 195, 135, 182, 105, 178, 238, 101, 134]"
  by code_simp

lemma chacha20_block_zero:
  "chacha20_block (replicate 32 0) (replicate 8 0) 0 =
     [118, 184, 224, 173, 160, 241, 61, 144, 64, 93, 106, 229, 83, 134, 189, 40, 189, 210, 25, 184, 160, 141, 237, 26, 168, 54, 239, 204, 139, 119, 13, 199, 218, 65, 89, 124, 81, 87, 72, 141, 119, 36, 224, 63, 184, 216, 74, 55, 106, 67, 184, 244, 21, 24, 161, 28, 195, 135, 182, 105, 178, 238, 101, 134]"
  by (simp only: chacha20_block_def Let_def chacha_input_zero rounds_zero store_zero)

section \<open>The keystream delivered\<close>

lemma nonce_eight_zero: "nonce = [0, 0, 0, 0, 0, 0, 0, 0]"
  by (simp add: nonce_def crypto_stream_chacha20_NONCEBYTES_def numeral_eq_Suc)

lemma keystream_byte_zero_0: "keystream_byte (replicate 32 0) nonce 0 = 118"
  by (simp add: keystream_byte_def nonce_def crypto_stream_chacha20_NONCEBYTES_def
      chacha20_block_zero)

lemma keystream_byte_zero_16: "keystream_byte (replicate 32 0) nonce 16 = 189"
  by (simp add: keystream_byte_def nonce_def crypto_stream_chacha20_NONCEBYTES_def
      chacha20_block_zero)

lemma substitute_written:
  assumes "substitute cfg e c s child = Inr (s1, Some (d, bs), child1)"
  shows "bs = crypto_stream_chacha20 (min (unat (size_req c)) (writev_limit e)) nonce (key cfg)
         \<and> d = dest c \<and> size_req c \<noteq> 0"
  using assms
  by (auto simp: substitute_def ptrace_call_def Let_def take_crypto_stream_chacha20
      split: if_splits)

lemma iteration_written:
  assumes "iteration cfg e s = Inr (s', fx)" and "written fx = Some (d, bs)"
  shows "bs = crypto_stream_chacha20 (length bs) nonce (key cfg)"
proof -
  from assms(1) obtain r where ex: "exit_stop cfg e r = Inr (s', fx)"
    by (auto simp: iteration_def split: sum.splits)
  from ex assms(2) obtain s1 child1 where
    "substitute cfg e (cls r) (tracer_state r) (kernel e (child_regs r)) = Inr (s1, Some (d, bs), child1)"
    by (auto simp: exit_stop_def ptrace_call_def split: if_splits sum.splits prod.splits)
  from substitute_written [OF this]
  have b: "bs = crypto_stream_chacha20 (min (unat (size_req (cls r))) (writev_limit e)) nonce (key cfg)"
    by simp
  then have "length bs = min (unat (size_req (cls r))) (writev_limit e)" by simp
  with b show ?thesis by simp
qed

lemma delivered_Cons:
  "delivered (fx # fxs) = (case written fx of None \<Rightarrow> [] | Some (d, bs) \<Rightarrow> [bs]) @ delivered fxs"
  by (simp add: delivered_def)

lemma trace_loop_delivered:
  "trace_loop cfg es s = (fxs, r) \<Longrightarrow> bs \<in> set (delivered fxs)
   \<Longrightarrow> bs = crypto_stream_chacha20 (length bs) nonce (key cfg)"
proof (induction es arbitrary: s fxs r)
  case Nil
  then show ?case by (simp add: delivered_def)
next
  case (Cons e es)
  show ?case
  proof (cases "iteration cfg e s")
    case (Inl h)
    with Cons.prems show ?thesis by (simp add: delivered_def)
  next
    case (Inr p)
    obtain s1 fx where p: "p = (s1, fx)" by (cases p)
    obtain fxs1 r1 where t: "trace_loop cfg es s1 = (fxs1, r1)" by (cases "trace_loop cfg es s1")
    from Cons.prems(1) Inr p t have fxs: "fxs = fx # fxs1" by auto
    from Inr p have it: "iteration cfg e s = Inr (s1, fx)" by simp
    from Cons.prems(2) fxs have "(\<exists>d. written fx = Some (d, bs)) \<or> bs \<in> set (delivered fxs1)"
      by (cases "written fx") (auto simp: delivered_Cons)
    then consider "\<exists>d. written fx = Some (d, bs)" | "bs \<in> set (delivered fxs1)"
      by blast
    then show ?thesis
    proof cases
      case 1
      then obtain d where "written fx = Some (d, bs)" ..
      with it show ?thesis by (rule iteration_written)
    next
      case 2
      with t show ?thesis by (rule Cons.IH)
    qed
  qed
qed

text \<open>
  C1, amended. Every buffer delivered to the child in a run is the keystream from its
  start: a buffer of \<open>n\<close> bytes holds keystream bytes \<open>0 .. n-1\<close> under key K, whatever
  was delivered before. For two consecutive intercepted calls of sizes \<open>n1\<close> and \<open>n2\<close>
  the second delivers bytes \<open>0 .. n2-1\<close>.
\<close>
theorem delivered_keystream_prefixes:
  assumes "trace_loop cfg es s = (fxs, r)"
  shows "\<forall>bs \<in> set (delivered fxs). bs = map (keystream_byte (key cfg) nonce) [0..<length bs]"
  using assms trace_loop_delivered [of cfg es s fxs r]
  by (auto simp: crypto_stream_chacha20_def)

lemma getrandom_16_iteration:
  "iteration cfg (getrandom_stop p 16) initial_tracer =
     Inr (initial_tracer\<lparr>buflen := 16, buf := crypto_stream_chacha20 16 nonce (key cfg)\<rparr>,
          \<lparr>resumed = syscall_regs (- 1) p 16 0,
           written = Some (p, crypto_stream_chacha20 16 nonce (key cfg)),
           returned = (syscall_regs (- 1) p 16 0)\<lparr>rax := 16\<rparr>\<rparr>)"
  by (simp add: loop_defs example_defs SYS_defs Let_def)

lemma getrandom_16_again:
  "iteration cfg (getrandom_stop p 16)
       (initial_tracer\<lparr>buflen := 16, buf := crypto_stream_chacha20 16 nonce (key cfg)\<rparr>) =
     Inr (initial_tracer\<lparr>buflen := 16, buf := crypto_stream_chacha20 16 nonce (key cfg)\<rparr>,
          \<lparr>resumed = syscall_regs (- 1) p 16 0,
           written = Some (p, crypto_stream_chacha20 16 nonce (key cfg)),
           returned = (syscall_regs (- 1) p 16 0)\<lparr>rax := 16\<rparr>\<rparr>)"
  by (simp add: loop_defs example_defs SYS_defs Let_def)

lemma two_getrandom_run:
  "trace_loop cfg [getrandom_stop 4096 16, getrandom_stop 8192 16] initial_tracer =
     ([\<lparr>resumed = syscall_regs (- 1) 4096 16 0,
         written = Some (4096, crypto_stream_chacha20 16 nonce (key cfg)),
         returned = (syscall_regs (- 1) 4096 16 0)\<lparr>rax := 16\<rparr>\<rparr>,
       \<lparr>resumed = syscall_regs (- 1) 8192 16 0,
         written = Some (8192, crypto_stream_chacha20 16 nonce (key cfg)),
         returned = (syscall_regs (- 1) 8192 16 0)\<lparr>rax := 16\<rparr>\<rparr>],
      Inr (initial_tracer\<lparr>buflen := 16, buf := crypto_stream_chacha20 16 nonce (key cfg)\<rparr>))"
  by (simp add: getrandom_16_iteration getrandom_16_again)

lemma stream_zero_mismatch:
  "crypto_stream_chacha20 16 nonce (replicate 32 0) @ crypto_stream_chacha20 16 nonce (replicate 32 0)
     \<noteq> crypto_stream_chacha20 32 nonce (replicate 32 0)"
proof
  assume "crypto_stream_chacha20 16 nonce (replicate 32 0) @ crypto_stream_chacha20 16 nonce (replicate 32 0)
     = crypto_stream_chacha20 32 nonce (replicate 32 0)"
  then have "(crypto_stream_chacha20 16 nonce (replicate 32 0)
                @ crypto_stream_chacha20 16 nonce (replicate 32 0)) ! 16
     = crypto_stream_chacha20 32 nonce (replicate 32 0) ! 16" by (simp only:)
  then have "keystream_byte (replicate 32 0) nonce 0 = keystream_byte (replicate 32 0) nonce 16"
    by (simp add: nth_append crypto_stream_chacha20_def)
  then show False by (simp add: keystream_byte_zero_0 keystream_byte_zero_16)
qed

text \<open>
  C1 as stated fails: two consecutive \<open>getrandom(buf, 16, 0)\<close> under the zero key both
  deliver keystream bytes \<open>0 .. 15\<close>, and their concatenation is not the keystream prefix
  of length 32 (byte 16 of the prefix is \<open>0xbd\<close>, byte 16 delivered is \<open>0x76\<close>).
\<close>

theorem second_call_repeats_keystream:
  "trace_loop zero_key_config [getrandom_stop 4096 16, getrandom_stop 8192 16] initial_tracer =
     ([\<lparr>resumed = syscall_regs (- 1) 4096 16 0,
         written = Some (4096, crypto_stream_chacha20 16 nonce (replicate 32 0)),
         returned = (syscall_regs (- 1) 4096 16 0)\<lparr>rax := 16\<rparr>\<rparr>,
       \<lparr>resumed = syscall_regs (- 1) 8192 16 0,
         written = Some (8192, crypto_stream_chacha20 16 nonce (replicate 32 0)),
         returned = (syscall_regs (- 1) 8192 16 0)\<lparr>rax := 16\<rparr>\<rparr>],
      Inr (initial_tracer\<lparr>buflen := 16, buf := crypto_stream_chacha20 16 nonce (replicate 32 0)\<rparr>))
   \<and> concat (delivered
        [\<lparr>resumed = syscall_regs (- 1) 4096 16 0,
           written = Some (4096, crypto_stream_chacha20 16 nonce (replicate 32 0)),
           returned = (syscall_regs (- 1) 4096 16 0)\<lparr>rax := 16\<rparr>\<rparr>,
         \<lparr>resumed = syscall_regs (- 1) 8192 16 0,
           written = Some (8192, crypto_stream_chacha20 16 nonce (replicate 32 0)),
           returned = (syscall_regs (- 1) 8192 16 0)\<lparr>rax := 16\<rparr>\<rparr>])
       \<noteq> crypto_stream_chacha20 (16 + 16) nonce (replicate 32 0)"
  using two_getrandom_run [of zero_key_config] stream_zero_mismatch
  by (simp add: delivered_def zero_key_config_def)

theorem delivered_keystream_prefixes_witness:
  "trace_loop zero_key_config [getrandom_stop 4096 16, getrandom_stop 8192 16] initial_tracer =
     ([\<lparr>resumed = syscall_regs (- 1) 4096 16 0,
         written = Some (4096, crypto_stream_chacha20 16 nonce (key zero_key_config)),
         returned = (syscall_regs (- 1) 4096 16 0)\<lparr>rax := 16\<rparr>\<rparr>,
       \<lparr>resumed = syscall_regs (- 1) 8192 16 0,
         written = Some (8192, crypto_stream_chacha20 16 nonce (key zero_key_config)),
         returned = (syscall_regs (- 1) 8192 16 0)\<lparr>rax := 16\<rparr>\<rparr>],
      Inr (initial_tracer\<lparr>buflen := 16,
             buf := crypto_stream_chacha20 16 nonce (key zero_key_config)\<rparr>))
   \<and> crypto_stream_chacha20 16 nonce (key zero_key_config)
       = map (keystream_byte (key zero_key_config) nonce) [0..<16]"
proof -
  note run = two_getrandom_run [of zero_key_config]
  note t = delivered_keystream_prefixes [OF run]
  have "crypto_stream_chacha20 16 nonce (key zero_key_config)
      \<in> set (delivered
        [\<lparr>resumed = syscall_regs (- 1) 4096 16 0,
           written = Some (4096, crypto_stream_chacha20 16 nonce (key zero_key_config)),
           returned = (syscall_regs (- 1) 4096 16 0)\<lparr>rax := 16\<rparr>\<rparr>,
         \<lparr>resumed = syscall_regs (- 1) 8192 16 0,
           written = Some (8192, crypto_stream_chacha20 16 nonce (key zero_key_config)),
           returned = (syscall_regs (- 1) 8192 16 0)\<lparr>rax := 16\<rparr>\<rparr>])"
    by (simp add: delivered_def)
  with t have "crypto_stream_chacha20 16 nonce (key zero_key_config)
       = map (keystream_byte (key zero_key_config) nonce)
           [0..<length (crypto_stream_chacha20 16 nonce (key zero_key_config))]"
    by blast
  then have "crypto_stream_chacha20 16 nonce (key zero_key_config)
       = map (keystream_byte (key zero_key_config) nonce) [0..<16]"
    by (simp only: length_crypto_stream_chacha20)
  with run show ?thesis by blast
qed

section \<open>Key and nonce of the keystream\<close>

lemma LOAD32_LE_zero: "LOAD32_LE (replicate n 0) i = 0"
  by (simp add: LOAD32_LE_def byte_at_def)

lemma chacha_input_ietf_zero_nonce:
  assumes "ctr < 2 ^ 32"
  shows "chacha_input k (replicate 8 0) ctr = chacha_input_ietf k (replicate 12 0) (ucast ctr)"
proof -
  from assms have "unat ctr < 2 ^ 32" by (simp add: word_less_nat_alt)
  then have "unat ctr div 2 ^ 32 = 0" by simp
  then have "drop_bit 32 (unat ctr) = 0" by (simp only: drop_bit_eq_div)
  then have "unat (drop_bit 32 ctr) = 0" by (simp only: unat_drop_bit_eq)
  then have "drop_bit 32 ctr = 0" by (simp add: unat_eq_0)
  then show ?thesis
    by (simp add: chacha_input_def chacha_input_ietf_def LOAD32_LE_zero)
qed

lemma byte_at_take: "j < n \<Longrightarrow> byte_at (take n k) j = byte_at k j"
  by (simp add: byte_at_def)

lemma LOAD32_LE_take: "i + 3 < n \<Longrightarrow> LOAD32_LE (take n k) i = LOAD32_LE k i"
  by (simp add: LOAD32_LE_def byte_at_take)

lemma chacha_keysetup_take:
  "chacha_keysetup (take crypto_stream_chacha20_KEYBYTES k) = chacha_keysetup k"
  by (simp add: chacha_keysetup_def crypto_stream_chacha20_KEYBYTES_def LOAD32_LE_take
      cong: map_cong)

lemma crypto_stream_chacha20_take_key:
  "crypto_stream_chacha20 n v (take crypto_stream_chacha20_KEYBYTES k)
     = crypto_stream_chacha20 n v k"
  by (simp add: crypto_stream_chacha20_def keystream_byte_def chacha20_block_def
      chacha_input_def chacha_keysetup_take)

text \<open>
  C2, amended. Every substitution buffer is filled from the ChaCha20 keystream of
  \<open>crypto_stream_chacha20\<close> keyed by the first 32 bytes (256 bits) of the derived key,
  with a nonce of eight zero bytes (\<open>crypto_stream_chacha20_NONCEBYTES\<close>); no other
  nonce length or value is used.
\<close>
theorem substitution_keystream_parameters:
  assumes "iteration cfg e s = Inr (s', fx)" and "written fx = Some (d, bs)"
  shows "bs = crypto_stream_chacha20 (length bs) [0, 0, 0, 0, 0, 0, 0, 0]
                (take crypto_stream_chacha20_KEYBYTES (key cfg))
         \<and> nonce = [0, 0, 0, 0, 0, 0, 0, 0]
         \<and> crypto_stream_chacha20_KEYBYTES * 8 = 256"
proof -
  from iteration_written [OF assms]
  have "bs = crypto_stream_chacha20 (length bs) nonce
                (take crypto_stream_chacha20_KEYBYTES (key cfg))"
    by (simp only: crypto_stream_chacha20_take_key)
  then have "bs = crypto_stream_chacha20 (length bs) [0, 0, 0, 0, 0, 0, 0, 0]
                (take crypto_stream_chacha20_KEYBYTES (key cfg))"
    by (simp only: nonce_eight_zero)
  moreover have "crypto_stream_chacha20_KEYBYTES * 8 = 256"
    by (simp add: crypto_stream_chacha20_KEYBYTES_def)
  ultimately show ?thesis using nonce_eight_zero by blast
qed

text \<open>
  C2 as stated fails: the nonce array has \<open>crypto_stream_chacha20_NONCEBYTES = 8\<close> bytes,
  not twelve.
\<close>

theorem nonce_is_not_twelve_bytes:
  "length nonce = 8 \<and> nonce \<noteq> replicate 12 0"
  by (simp add: nonce_eight_zero numeral_eq_Suc)


theorem substitution_keystream_parameters_witness:
  "iteration zero_key_config (getrandom_stop 4096 16) initial_tracer =
     Inr (initial_tracer\<lparr>buflen := 16,
            buf := crypto_stream_chacha20 16 nonce (key zero_key_config)\<rparr>,
          \<lparr>resumed = syscall_regs (- 1) 4096 16 0,
           written = Some (4096, crypto_stream_chacha20 16 nonce (key zero_key_config)),
           returned = (syscall_regs (- 1) 4096 16 0)\<lparr>rax := 16\<rparr>\<rparr>)
   \<and> crypto_stream_chacha20 16 nonce (key zero_key_config)
       = crypto_stream_chacha20 16 [0, 0, 0, 0, 0, 0, 0, 0]
           (take crypto_stream_chacha20_KEYBYTES (key zero_key_config))"
proof -
  note it = getrandom_16_iteration [of zero_key_config 4096]
  have w: "written \<lparr>resumed = syscall_regs (- 1) 4096 16 0,
           written = Some (4096, crypto_stream_chacha20 16 nonce (key zero_key_config)),
           returned = (syscall_regs (- 1) 4096 16 0)\<lparr>rax := 16\<rparr>\<rparr>
      = Some (4096, crypto_stream_chacha20 16 nonce (key zero_key_config))" by simp
  from substitution_keystream_parameters [OF it w]
  have "crypto_stream_chacha20 16 nonce (key zero_key_config)
       = crypto_stream_chacha20 (length (crypto_stream_chacha20 16 nonce (key zero_key_config)))
           [0, 0, 0, 0, 0, 0, 0, 0]
           (take crypto_stream_chacha20_KEYBYTES (key zero_key_config))"
    by blast
  then have "crypto_stream_chacha20 16 nonce (key zero_key_config)
       = crypto_stream_chacha20 16 [0, 0, 0, 0, 0, 0, 0, 0]
           (take crypto_stream_chacha20_KEYBYTES (key zero_key_config))"
    by (simp only: length_crypto_stream_chacha20)
  with it show ?thesis by blast
qed

end
